theory Spec2Isabelle
  imports Complex_Main
begin

section \<open>Values, requests and issues\<close>

text \<open>
  The request-validation pipeline of the WOD tracker backend: the Zod schemas of
  \<^verbatim>\<open>src/validation/user.schema.ts\<close> and the Express middleware of
  \<^verbatim>\<open>src/middleware/validate.middleware.ts\<close>.

  JavaScript values as the pipeline sees them: the JSON values of a parsed request, plus
  \<^verbatim>\<open>undefined\<close> (an absent property) and \<^verbatim>\<open>NaN\<close> (what
  \<^verbatim>\<open>parseInt\<close> gives on a string without digits) and the two infinities (what it gives
  on a digit run beyond the range of a double). A finite number is the rational it
  denotes; the numbers of a request are compared exactly, and the integer that
  \<^verbatim>\<open>parseInt\<close> reads is rounded to the nearest IEEE double. A string is a list of 8-bit
  characters, read as the code units of a Latin-1 string; objects are association lists in
  property order.
\<close>

datatype jv =
    JUndefined
  | JNull
  | JBool bool
  | JNum rat
  | JNaN
  | JInf bool
  | JStr string
  | JArr "jv list"
  | JObj "(string \<times> jv) list"

text \<open>Zod's \<^verbatim>\<open>ZodParsedType\<close>, restricted to the types a \<open>jv\<close> can have.\<close>

datatype ptype = PUndefined | PNull | PBoolean | PNumber | PNan | PString | PArray | PObject

fun getParsedType :: "jv \<Rightarrow> ptype" where
  "getParsedType JUndefined = PUndefined"
| "getParsedType JNull = PNull"
| "getParsedType (JBool b) = PBoolean"
| "getParsedType (JNum r) = PNumber"
| "getParsedType JNaN = PNan"
| "getParsedType (JInf positive) = PNumber"
| "getParsedType (JStr s) = PString"
| "getParsedType (JArr xs) = PArray"
| "getParsedType (JObj kvs) = PObject"

fun ptype_name :: "ptype \<Rightarrow> string" where
  "ptype_name PUndefined = ''undefined''"
| "ptype_name PNull = ''null''"
| "ptype_name PBoolean = ''boolean''"
| "ptype_name PNumber = ''number''"
| "ptype_name PNan = ''nan''"
| "ptype_name PString = ''string''"
| "ptype_name PArray = ''array''"
| "ptype_name PObject = ''object''"

text \<open>Property lookup \<^verbatim>\<open>data[key]\<close> and the test \<^verbatim>\<open>key in data\<close>.\<close>

definition get_prop :: "(string \<times> jv) list \<Rightarrow> string \<Rightarrow> jv" where
  "get_prop kvs k = (case map_of kvs k of None \<Rightarrow> JUndefined | Some v \<Rightarrow> v)"

definition has_key :: "(string \<times> jv) list \<Rightarrow> string \<Rightarrow> bool" where
  "has_key kvs k = (k \<in> set (map fst kvs))"

text \<open>
  A Zod issue, with the fields the middleware reads. \<open>received\<close> is \<open>JUndefined\<close> where
  the issue has no such property.
\<close>

datatype zcode = invalid_type | invalid_enum_value | too_small | too_big | invalid_string | custom

record issue =
  code :: zcode
  path :: "string list"
  message :: string
  received :: jv

text \<open>
  What the schemas read from outside: the clock (\<^verbatim>\<open>Date.now()\<close>, in milliseconds), the
  process environment (\<^verbatim>\<open>process.env.NODE_ENV\<close>), and the parts of the Zod library and of
  the JavaScript runtime that are taken as given: the e-mail and ISO date-time patterns of
  Zod, whether \<^verbatim>\<open>new URL(s)\<close> succeeds, and the time value of \<^verbatim>\<open>new Date(s)\<close>
  (\<open>None\<close> for an invalid date).
\<close>

record env =
  now_ms :: int
  node_env :: "string option"
  is_email :: "string \<Rightarrow> bool"
  is_url :: "string \<Rightarrow> bool"
  is_datetime :: "string \<Rightarrow> bool"
  date_ms :: "string \<Rightarrow> int option"

section \<open>Strings: white space, trimming, case, patterns, parseInt\<close>

text \<open>
  The white space of \<^verbatim>\<open>String.prototype.trim\<close> and of \<^verbatim>\<open>\s\<close> among the 8-bit code
  units: TAB, LF, VT, FF, CR, space and the no-break space.
\<close>

definition is_space :: "char \<Rightarrow> bool" where
  "is_space c = (of_char c \<in> {9, 10, 11, 12, 13, 32, 160 :: nat})"

definition trim :: "string \<Rightarrow> string" where
  "trim s = rev (dropWhile is_space (rev (dropWhile is_space s)))"

definition lower_char :: "char \<Rightarrow> char" where
  "lower_char c =
     (let n = (of_char c :: nat)
      in if (65 \<le> n \<and> n \<le> 90) \<or> (192 \<le> n \<and> n \<le> 214) \<or> (216 \<le> n \<and> n \<le> 222)
         then char_of (n + 32) else c)"

definition toLowerCase :: "string \<Rightarrow> string" where
  "toLowerCase s = map lower_char s"

definition is_digit :: "char \<Rightarrow> bool" where
  "is_digit c = (c \<in> set ''0123456789'')"

definition is_lower :: "char \<Rightarrow> bool" where
  "is_lower c = (c \<in> set ''abcdefghijklmnopqrstuvwxyz'')"

definition is_upper :: "char \<Rightarrow> bool" where
  "is_upper c = (c \<in> set ''ABCDEFGHIJKLMNOPQRSTUVWXYZ'')"

text \<open>
  The regular expressions of the schemas are all of one form: anchored at both ends, a
  sequence of character classes, each with a repetition range. A pattern is the list of
  its items \<open>(class, least, most)\<close>, \<open>most = None\<close> for an unbounded repetition.
  \<^verbatim>\<open>$\<close> without the \<^verbatim>\<open>m\<close> flag matches at the end of the input only.
\<close>

type_synonym rx_item = "(char \<Rightarrow> bool) \<times> nat \<times> nat option"

fun rx_test :: "rx_item list \<Rightarrow> string \<Rightarrow> bool" where
  "rx_test [] s = (s = [])"
| "rx_test ((cls, lo, hi) # items) s =
     list_ex (\<lambda>k. list_all cls (take k s) \<and> rx_test items (drop k s))
       [lo ..< Suc (case hi of None \<Rightarrow> length s | Some h \<Rightarrow> min h (length s))]"

text \<open>
  The Number value of an integer: the nearest double, a tie going to the even
  significand. An integer of magnitude up to \<open>2^53 = 9007199254740992\<close> is a double
  itself. A larger one has more than 53 bits; all but the leading 53 are rounded away, and
  a result of \<open>2^1024\<close> or more is an infinity.
\<close>

function bit_length :: "int \<Rightarrow> nat" where
  "bit_length n = (if n \<le> 0 then 0 else Suc (bit_length (n div 2)))"
  by pat_completeness auto
termination
  by (relation "measure nat") auto

declare bit_length.simps [simp del]

definition round_half_even :: "int \<Rightarrow> nat \<Rightarrow> int" where
  "round_half_even a k =
     (let q = a div 2 ^ k; r = a mod 2 ^ k; half = 2 ^ (k - 1)
      in (if r > half \<or> (r = half \<and> odd q) then q + 1 else q) * 2 ^ k)"

definition double_of_int :: "int \<Rightarrow> jv" where
  "double_of_int n =
     (let a = \<bar>n\<bar>
      in if a \<le> 9007199254740992 then JNum (of_int n)
         else (let m = round_half_even a (bit_length a - 53)
               in if m \<ge> 2 ^ 1024 then JInf (0 < n)
                  else JNum (of_int (if n < 0 then - m else m))))"

text \<open>
  \<^verbatim>\<open>parseInt(s, 10)\<close>: leading white space is skipped, then an optional sign, then the
  longest run of decimal digits; whatever follows is ignored. No digit gives \<^verbatim>\<open>NaN\<close>;
  otherwise the result is the Number value of the integer read.
\<close>

definition digit_val :: "char \<Rightarrow> int" where
  "digit_val c = int (of_char c) - 48"

definition digits_val :: "string \<Rightarrow> int" where
  "digits_val ds = foldl (\<lambda>acc c. 10 * acc + digit_val c) 0 ds"

definition parseInt :: "string \<Rightarrow> jv" where
  "parseInt s =
     (let t = dropWhile is_space s;
          neg = (t \<noteq> [] \<and> hd t = CHR ''-'');
          u = (if t \<noteq> [] \<and> (hd t = CHR ''-'' \<or> hd t = CHR ''+'') then tl t else t);
          ds = takeWhile is_digit u
      in if ds = [] then JNaN
         else double_of_int (if neg then - digits_val ds else digits_val ds))"

section \<open>The schema language\<close>

text \<open>
  A schema is the term its builder chain constructs. Each check carries its
  \<^verbatim>\<open>message\<close> option where the source gives one somewhere and leaves it out elsewhere;
  the bounds on numbers, the minimum length, the patterns and the refinements always have
  one in this repository.
\<close>

record tparams =
  required_error :: "string option"
  invalid_type_error :: "string option"

definition no_params :: tparams where
  "no_params = \<lparr>required_error = None, invalid_type_error = None\<rparr>"

datatype str_check =
    SMin nat string
  | SMax nat "string option"
  | SEmail string
  | SUrl string
  | SRegex "rx_item list" string
  | SDatetime string
  | SToLowerCase
  | STrim

datatype num_check =
    NInt "string option"
  | NMin rat bool string
  | NMax rat bool string

datatype schema =
    ZString tparams "str_check list"
  | ZNumber tparams "num_check list"
  | ZBoolean
  | ZEnum "string list" "string option"
  | ZOptional schema
  | ZNullable schema
  | ZDefault schema jv
  | ZRefine schema "env \<Rightarrow> jv \<Rightarrow> bool" string
  | ZTransform schema "env \<Rightarrow> jv \<Rightarrow> jv"
  | ZObject "(string \<times> schema) list"

section \<open>The Zod engine, in asynchronous mode\<close>

text \<open>
  The middleware calls \<^verbatim>\<open>schema.parseAsync\<close>. In that mode every issue is pushed on one
  shared array, in the order the checks run. The type test and the checks of a string, a
  number, a boolean or an enum run inside the \<^verbatim>\<open>_parse\<close> call itself; an object calls
  \<^verbatim>\<open>_parse\<close> of its fields one after the other, in the order of its shape. A
  \<^verbatim>\<open>refine\<close> or \<^verbatim>\<open>transform\<close> calls \<^verbatim>\<open>_parse\<close> of the schema beneath it at once, but
  runs its own function in a \<^verbatim>\<open>then\<close> callback, that is, after the loop over the fields
  of the enclosing object has finished. The result of \<^verbatim>\<open>_parse\<close> therefore keeps two
  lists: the issues pushed during the call, and the issues pushed by the callbacks later.
  The later issues are listed field by field, which is the order of the callbacks whenever
  the fields that have them are built from the same chain, as in every schema here.
\<close>

datatype pstatus = Valid | Dirty | Aborted

record parse_return =
  p_status :: pstatus
  p_value :: jv
  issues_now :: "issue list"
  issues_later :: "issue list"

definition INVALID :: "issue list \<Rightarrow> parse_return" where
  "INVALID iss = \<lparr>p_status = Aborted, p_value = JUndefined, issues_now = iss, issues_later = []\<rparr>"

definition OK :: "jv \<Rightarrow> parse_return" where
  "OK v = \<lparr>p_status = Valid, p_value = v, issues_now = [], issues_later = []\<rparr>"

fun join :: "string \<Rightarrow> string list \<Rightarrow> string" where
  "join sep [] = []"
| "join sep [x] = x"
| "join sep (x # y # ys) = x @ sep @ join sep (y # ys)"

fun show_nat :: "nat \<Rightarrow> string" where
  "show_nat n =
     (if n < 10 then [char_of (48 + n)] else show_nat (n div 10) @ [char_of (48 + n mod 10)])"

declare show_nat.simps [simp del]

text \<open>
  An \<^verbatim>\<open>invalid_type\<close> issue. Its message comes from \<^verbatim>\<open>required_error\<close> when the data
  is \<^verbatim>\<open>undefined\<close>, from \<^verbatim>\<open>invalid_type_error\<close> otherwise, and from Zod's default
  error map when the schema gives none. The error map the middleware passes returns
  \<^verbatim>\<open>ctx.defaultError\<close>, the message found so far, and so changes nothing.
\<close>

definition type_message :: "tparams \<Rightarrow> jv \<Rightarrow> string \<Rightarrow> string \<Rightarrow> string" where
  "type_message tp v expected got =
     (if v = JUndefined
      then (case required_error tp of Some m \<Rightarrow> m | None \<Rightarrow> ''Required'')
      else (case invalid_type_error tp of Some m \<Rightarrow> m
            | None \<Rightarrow> ''Expected '' @ expected @ '', received '' @ got))"

definition type_issue :: "tparams \<Rightarrow> string list \<Rightarrow> jv \<Rightarrow> string \<Rightarrow> issue" where
  "type_issue tp p v expected =
     \<lparr>code = invalid_type, path = p,
      message = type_message tp v expected (ptype_name (getParsedType v)),
      received = JStr (ptype_name (getParsedType v))\<rparr>"

definition plain_issue :: "zcode \<Rightarrow> string list \<Rightarrow> string \<Rightarrow> issue" where
  "plain_issue c p m = \<lparr>code = c, path = p, message = m, received = JUndefined\<rparr>"

subsection \<open>ZodString\<close>

fun str_check_issues :: "env \<Rightarrow> str_check \<Rightarrow> string list \<Rightarrow> string \<Rightarrow> issue list" where
  "str_check_issues e (SMin n m) p s = (if length s < n then [plain_issue too_small p m] else [])"
| "str_check_issues e (SMax n m) p s =
     (if length s > n
      then [plain_issue too_big p
              (case m of Some t \<Rightarrow> t
               | None \<Rightarrow> ''String must contain at most '' @ show_nat n @ '' character(s)'')]
      else [])"
| "str_check_issues e (SEmail m) p s = (if is_email e s then [] else [plain_issue invalid_string p m])"
| "str_check_issues e (SUrl m) p s = (if is_url e s then [] else [plain_issue invalid_string p m])"
| "str_check_issues e (SRegex r m) p s = (if rx_test r s then [] else [plain_issue invalid_string p m])"
| "str_check_issues e (SDatetime m) p s =
     (if is_datetime e s then [] else [plain_issue invalid_string p m])"
| "str_check_issues e SToLowerCase p s = []"
| "str_check_issues e STrim p s = []"

fun str_check_data :: "str_check \<Rightarrow> string \<Rightarrow> string" where
  "str_check_data STrim s = trim s"
| "str_check_data SToLowerCase s = toLowerCase s"
| "str_check_data c s = s"

text \<open>The loop over \<^verbatim>\<open>this._def.checks\<close>: every check runs, on the data as the checks before it left it.\<close>

fun string_checks :: "env \<Rightarrow> str_check list \<Rightarrow> string list \<Rightarrow> string \<Rightarrow> string \<times> issue list" where
  "string_checks e [] p s = (s, [])"
| "string_checks e (c # cs) p s =
     (let (s', iss) = string_checks e cs p (str_check_data c s)
      in (s', str_check_issues e c p s @ iss))"

subsection \<open>ZodNumber\<close>

definition isInteger :: "rat \<Rightarrow> bool" where
  "isInteger r = (r = of_int \<lfloor>r\<rfloor>)"

fun num_check_issues :: "tparams \<Rightarrow> num_check \<Rightarrow> string list \<Rightarrow> rat \<Rightarrow> issue list" where
  "num_check_issues tp (NInt m) p r =
     (if isInteger r then []
      else [\<lparr>code = invalid_type, path = p,
             message = (case m of Some t \<Rightarrow> t
                        | None \<Rightarrow> type_message tp (JNum r) ''integer'' ''float''),
             received = JStr ''float''\<rparr>])"
| "num_check_issues tp (NMin b inclusive m) p r =
     (if (if inclusive then r < b else r \<le> b) then [plain_issue too_small p m] else [])"
| "num_check_issues tp (NMax b inclusive m) p r =
     (if (if inclusive then r > b else r \<ge> b) then [plain_issue too_big p m] else [])"

text \<open>
  The same checks on an infinity: it is not an integer, \<open>+Infinity\<close> is above every bound
  and \<open>-Infinity\<close> below.
\<close>

fun inf_check_issues :: "tparams \<Rightarrow> num_check \<Rightarrow> string list \<Rightarrow> bool \<Rightarrow> issue list" where
  "inf_check_issues tp (NInt m) p positive =
     [\<lparr>code = invalid_type, path = p,
       message = (case m of Some t \<Rightarrow> t
                  | None \<Rightarrow> type_message tp (JInf positive) ''integer'' ''float''),
       received = JStr ''float''\<rparr>]"
| "inf_check_issues tp (NMin b inclusive m) p positive =
     (if positive then [] else [plain_issue too_small p m])"
| "inf_check_issues tp (NMax b inclusive m) p positive =
     (if positive then [plain_issue too_big p m] else [])"

definition number_checks :: "tparams \<Rightarrow> num_check list \<Rightarrow> string list \<Rightarrow> rat \<Rightarrow> issue list" where
  "number_checks tp cs p r = concat (map (\<lambda>c. num_check_issues tp c p r) cs)"

subsection \<open>ZodEnum\<close>

definition joinValues :: "string list \<Rightarrow> string" where
  "joinValues vs = join '' | '' (map (\<lambda>v. [CHR 0x27] @ v @ [CHR 0x27]) vs)"

definition enum_parse :: "string list \<Rightarrow> string option \<Rightarrow> string list \<Rightarrow> jv \<Rightarrow> parse_return" where
  "enum_parse vs em p v =
     (case v of
        JStr s \<Rightarrow>
          if s \<in> set vs then OK v
          else INVALID [\<lparr>code = invalid_enum_value, path = p,
                  message = (case em of Some m \<Rightarrow> m
                             | None \<Rightarrow> ''Invalid enum value. Expected '' @ joinValues vs
                                 @ '', received '' @ [CHR 0x27] @ s @ [CHR 0x27]),
                  received = v\<rparr>]
      | _ \<Rightarrow>
          INVALID [\<lparr>code = invalid_type, path = p,
                  message = (case em of Some m \<Rightarrow> m
                             | None \<Rightarrow> type_message no_params v (joinValues vs)
                                 (ptype_name (getParsedType v))),
                  received = JStr (ptype_name (getParsedType v))\<rparr>])"

subsection \<open>ZodObject\<close>

text \<open>
  \<^verbatim>\<open>ParseStatus.mergeObjectSync\<close>, on the pairs \<open>(key, key in data, result)\<close>: an
  aborted field aborts the object; otherwise a key is set when its value is defined or the
  key was present in the data. Keys of the data outside the shape are never read: the
  schemas are built by \<^verbatim>\<open>z.object\<close> with the default \<^verbatim>\<open>unknownKeys: "strip"\<close>.
\<close>

definition mergeObject :: "(string \<times> bool \<times> parse_return) list \<Rightarrow> parse_return" where
  "mergeObject pairs =
     (let rs = map (\<lambda>(k, always, r). r) pairs;
          aborted = list_ex (\<lambda>r. p_status r = Aborted) rs;
          dirty = list_ex (\<lambda>r. p_status r = Dirty) rs
      in \<lparr>p_status = (if aborted then Aborted else if dirty then Dirty else Valid),
          p_value = (if aborted then JUndefined
                     else JObj (map (\<lambda>(k, always, r). (k, p_value r))
                            (filter (\<lambda>(k, always, r). k \<noteq> ''__proto__''
                                       \<and> (p_value r \<noteq> JUndefined \<or> always)) pairs))),
          issues_now = concat (map issues_now rs),
          issues_later = concat (map issues_later rs)\<rparr>)"

subsection \<open>The parser\<close>

fun parse :: "env \<Rightarrow> schema \<Rightarrow> string list \<Rightarrow> jv \<Rightarrow> parse_return"
  and parse_shape :: "env \<Rightarrow> (string \<times> schema) list \<Rightarrow> string list \<Rightarrow> (string \<times> jv) list
                        \<Rightarrow> (string \<times> bool \<times> parse_return) list"
where
  "parse e (ZString tp cs) p v =
     (case v of
        JStr s \<Rightarrow>
          (let (s', iss) = string_checks e cs p s
           in \<lparr>p_status = (if iss = [] then Valid else Dirty), p_value = JStr s',
               issues_now = iss, issues_later = []\<rparr>)
      | _ \<Rightarrow> INVALID [type_issue tp p v ''string''])"
| "parse e (ZNumber tp cs) p v =
     (case v of
        JNum r \<Rightarrow>
          (let iss = number_checks tp cs p r
           in \<lparr>p_status = (if iss = [] then Valid else Dirty), p_value = v,
               issues_now = iss, issues_later = []\<rparr>)
      | JInf positive \<Rightarrow>
          (let iss = concat (map (\<lambda>c. inf_check_issues tp c p positive) cs)
           in \<lparr>p_status = (if iss = [] then Valid else Dirty), p_value = v,
               issues_now = iss, issues_later = []\<rparr>)
      | _ \<Rightarrow> INVALID [type_issue tp p v ''number''])"
| "parse e ZBoolean p v =
     (case v of JBool b \<Rightarrow> OK v | _ \<Rightarrow> INVALID [type_issue no_params p v ''boolean''])"
| "parse e (ZEnum vs em) p v = enum_parse vs em p v"
| "parse e (ZOptional s) p v = (if v = JUndefined then OK JUndefined else parse e s p v)"
| "parse e (ZNullable s) p v = (if v = JNull then OK JNull else parse e s p v)"
| "parse e (ZDefault s d) p v = parse e s p (if v = JUndefined then d else v)"
| "parse e (ZRefine s f m) p v =
     (let inner = parse e s p v
      in if p_status inner = Aborted then inner
         else if f e (p_value inner) then inner
         else inner\<lparr>p_status := Dirty,
                    issues_later := issues_later inner @ [plain_issue custom p m]\<rparr>)"
| "parse e (ZTransform s f) p v =
     (let base = parse e s p v
      in if p_status base \<noteq> Valid then base
         else base\<lparr>p_value := f e (p_value base)\<rparr>)"
| "parse e (ZObject shape) p v =
     (case v of
        JObj kvs \<Rightarrow> mergeObject (parse_shape e shape p kvs)
      | _ \<Rightarrow> INVALID [type_issue no_params p v ''object''])"
| "parse_shape e [] p kvs = []"
| "parse_shape e ((k, s) # shape) p kvs =
     (k, has_key kvs k, parse e s (p @ [k]) (get_prop kvs k)) # parse_shape e shape p kvs"

text \<open>
  \<^verbatim>\<open>parseAsync\<close>: the promise resolves with the value of a valid result and rejects with a
  \<^verbatim>\<open>ZodError\<close> holding the issues otherwise, those of the callbacks after those of the
  calls; without any issue \<^verbatim>\<open>handleResult\<close> throws a plain \<^verbatim>\<open>Error\<close>. A rejection that
  is not a \<^verbatim>\<open>ZodError\<close> carries the text of the fault.
\<close>

datatype settled = Resolved jv | RejectedZod "issue list" | RejectedOther string

definition all_issues :: "parse_return \<Rightarrow> issue list" where
  "all_issues r = issues_now r @ issues_later r"

definition parseAsync :: "env \<Rightarrow> schema \<Rightarrow> jv \<Rightarrow> settled" where
  "parseAsync e s v =
     (let r = parse e s [] v
      in if p_status r = Valid then Resolved (p_value r)
         else if all_issues r = [] then RejectedOther ''Validation failed but no issues detected.''
         else RejectedZod (all_issues r))"

section \<open>The schemas of user.schema.ts\<close>

subsection \<open>Enum schemas\<close>

definition userRoleSchema :: schema where
  "userRoleSchema =
     ZEnum [''athlete'', ''coach'', ''admin''] (Some ''Role must be athlete, coach, or admin'')"

definition userLevelSchema :: schema where
  "userLevelSchema =
     ZEnum [''scaled'', ''intermediate'', ''rx''] (Some ''Level must be scaled, intermediate, or rx'')"

definition userGenderSchema :: schema where
  "userGenderSchema =
     ZEnum [''male'', ''female'', ''other''] (Some ''Gender must be male, female, or other'')"

definition userLanguageSchema :: schema where
  "userLanguageSchema = ZEnum [''uk'', ''en'', ''ru''] (Some ''Language must be uk, en, or ru'')"

definition payoutMethodSchema :: schema where
  "payoutMethodSchema =
     ZEnum [''bank_transfer'', ''paypal'', ''stripe'']
       (Some ''Payout method must be bank_transfer, paypal, or stripe'')"

subsection \<open>Character classes and patterns\<close>

definition one :: "char \<Rightarrow> char \<Rightarrow> bool" where
  "one c x = (x = c)"

definition is_word :: "char \<Rightarrow> bool" where
  "is_word c = (is_lower c \<or> is_upper c \<or> is_digit c \<or> c = CHR ''_'')"

definition is_tz_char :: "char \<Rightarrow> bool" where
  "is_tz_char c = (is_upper c \<or> is_lower c \<or> c = CHR ''_'')"

definition is_hex :: "char \<Rightarrow> bool" where
  "is_hex c = (c \<in> set ''abcdef'' \<or> is_digit c)"

definition is_phone_sep :: "char \<Rightarrow> bool" where
  "is_phone_sep c = (c = CHR ''-'' \<or> is_space c \<or> c = CHR ''.'')"

text \<open>\<^verbatim>\<open>/^[a-zA-Z0-9_]+$/\<close>\<close>

definition username_rx :: "rx_item list" where
  "username_rx = [(is_word, 1, None)]"

text \<open>\<^verbatim>\<open>/^[+]?[(]?[0-9]{1,4}[)]?[-\s.]?[(]?[0-9]{1,4}[)]?[-\s.]?[0-9]{1,9}$/\<close>\<close>

definition phone_rx :: "rx_item list" where
  "phone_rx =
     [(one CHR ''+'', 0, Some 1), (one CHR ''('', 0, Some 1), (is_digit, 1, Some 4),
      (one CHR '')'', 0, Some 1), (is_phone_sep, 0, Some 1), (one CHR ''('', 0, Some 1),
      (is_digit, 1, Some 4), (one CHR '')'', 0, Some 1), (is_phone_sep, 0, Some 1),
      (is_digit, 1, Some 9)]"

text \<open>\<^verbatim>\<open>/^[A-Za-z_]+\/[A-Za-z_]+$/\<close>\<close>

definition timezone_rx :: "rx_item list" where
  "timezone_rx = [(is_tz_char, 1, None), (one CHR ''/'', 1, Some 1), (is_tz_char, 1, None)]"

text \<open>\<^verbatim>\<open>/^[a-f0-9]{64}$/\<close>\<close>

definition hash_rx :: "rx_item list" where
  "hash_rx = [(is_hex, 64, Some 64)]"

subsection \<open>Reusable field schemas\<close>

definition emailSchema :: schema where
  "emailSchema =
     ZString no_params
       [SEmail ''Invalid email format'', SMax 255 (Some ''Email must be at most 255 characters''),
        SToLowerCase, STrim]"

definition phoneNumberSchema :: schema where
  "phoneNumberSchema =
     ZString no_params
       [SMin 10 ''Phone number must be at least 10 characters'',
        SMax 20 (Some ''Phone number must be at most 20 characters''),
        SRegex phone_rx ''Invalid phone number format'', STrim]"

definition urlSchema :: schema where
  "urlSchema =
     ZString no_params
       [SUrl ''Invalid URL format'', SMax 2048 (Some ''URL must be at most 2048 characters'')]"

definition timezoneSchema :: schema where
  "timezoneSchema =
     ZString no_params
       [SMin 1 ''Timezone is required'', SMax 50 (Some ''Timezone must be at most 50 characters''),
        SRegex timezone_rx ''Timezone must be in IANA format (e.g., Europe/Kiev)'']"

text \<open>
  The refinement functions. Each is only ever called on a value of the type its schema
  has checked; on any other value it is given the answer \<open>False\<close>.
  \<^verbatim>\<open>new Date(date) <= new Date()\<close> compares time values and is false for an invalid date.
\<close>

definition not_in_future :: "env \<Rightarrow> jv \<Rightarrow> bool" where
  "not_in_future e v =
     (case v of
        JStr d \<Rightarrow> (case date_ms e d of Some t \<Rightarrow> t \<le> now_ms e | None \<Rightarrow> False)
      | _ \<Rightarrow> False)"

definition age_at_most_120 :: "env \<Rightarrow> jv \<Rightarrow> bool" where
  "age_at_most_120 e v =
     (case v of
        JStr d \<Rightarrow>
          (case date_ms e d of
             Some t \<Rightarrow>
               (let age = (of_int (now_ms e - t) :: rat) / (1000 * 60 * 60 * 24 * (36525 / 100))
                in age \<le> 120)
           | None \<Rightarrow> False)
      | _ \<Rightarrow> False)"

definition dateOfBirthSchema :: schema where
  "dateOfBirthSchema =
     ZRefine
       (ZRefine
          (ZString no_params [SDatetime ''Date of birth must be a valid ISO 8601 date''])
          not_in_future ''Date of birth cannot be in the future'')
       age_at_most_120 ''Date of birth seems invalid (age > 120 years)''"

subsection \<open>createUserSchema\<close>

definition createUserSchema :: schema where
  "createUserSchema = ZObject
     [(''id'',
        ZNumber \<lparr>required_error = Some ''User ID is required'',
                 invalid_type_error = Some ''User ID must be a number''\<rparr>
          [NInt (Some ''User ID must be an integer''), NMin 0 False ''User ID must be positive'']),
      (''first_name'',
        ZString \<lparr>required_error = Some ''First name is required'',
                 invalid_type_error = Some ''First name must be a string''\<rparr>
          [SMin 1 ''First name must be at least 1 character'',
           SMax 100 (Some ''First name must be at most 100 characters''), STrim]),
      (''username'',
        ZNullable (ZOptional (ZString no_params
          [SMin 3 ''Username must be at least 3 characters'',
           SMax 50 (Some ''Username must be at most 50 characters''),
           SRegex username_rx ''Username can only contain letters, numbers, and underscores'',
           STrim]))),
      (''last_name'',
        ZNullable (ZOptional (ZString no_params
          [SMax 100 (Some ''Last name must be at most 100 characters''), STrim]))),
      (''photo_url'', ZNullable (ZOptional urlSchema)),
      (''role'', ZOptional userRoleSchema),
      (''language'', ZOptional userLanguageSchema)]"

subsection \<open>updateUserSchema\<close>

definition updateUserSchema :: schema where
  "updateUserSchema = ZObject
     [(''id'', ZNumber no_params [NInt None, NMin 0 False ''User ID must be positive'']),
      (''username'',
        ZNullable (ZOptional (ZString no_params
          [SMin 3 ''Username must be at least 3 characters'',
           SMax 50 (Some ''Username must be at most 50 characters''),
           SRegex username_rx ''Username can only contain letters, numbers, and underscores'',
           STrim]))),
      (''first_name'',
        ZOptional (ZString no_params
          [SMin 1 ''First name must be at least 1 character'',
           SMax 100 (Some ''First name must be at most 100 characters''), STrim])),
      (''last_name'',
        ZNullable (ZOptional (ZString no_params
          [SMax 100 (Some ''Last name must be at most 100 characters''), STrim]))),
      (''photo_url'', ZNullable (ZOptional urlSchema)),
      (''email'', ZNullable (ZOptional emailSchema)),
      (''phone_number'', ZNullable (ZOptional phoneNumberSchema)),
      (''level'', ZOptional userLevelSchema),
      (''height_cm'',
        ZNullable (ZOptional (ZNumber no_params
          [NInt (Some ''Height must be an integer''),
           NMin 50 True ''Height must be at least 50 cm'',
           NMax 250 True ''Height must be at most 250 cm'']))),
      (''weight_kg'',
        ZNullable (ZOptional (ZNumber no_params
          [NMin 20 True ''Weight must be at least 20 kg'',
           NMax 300 True ''Weight must be at most 300 kg'']))),
      (''date_of_birth'', ZNullable (ZOptional dateOfBirthSchema)),
      (''gender'', ZNullable (ZOptional userGenderSchema)),
      (''experience_years'',
        ZNullable (ZOptional (ZNumber no_params
          [NInt (Some ''Experience years must be an integer''),
           NMin 0 True ''Experience years cannot be negative'',
           NMax 80 True ''Experience years must be at most 80'']))),
      (''goals'',
        ZNullable (ZOptional (ZString no_params
          [SMax 1000 (Some ''Goals must be at most 1000 characters''), STrim]))),
      (''injuries'',
        ZNullable (ZOptional (ZString no_params
          [SMax 1000 (Some ''Injuries must be at most 1000 characters''), STrim]))),
      (''notes'',
        ZNullable (ZOptional (ZString no_params
          [SMax 2000 (Some ''Notes must be at most 2000 characters''), STrim]))),
      (''language'', ZOptional userLanguageSchema),
      (''timezone'', ZOptional timezoneSchema),
      (''notifications_enabled'', ZOptional ZBoolean),
      (''bank_account_number'',
        ZNullable (ZOptional (ZString no_params
          [SMin 8 ''Bank account number must be at least 8 characters'',
           SMax 34 (Some ''Bank account number must be at most 34 characters''), STrim]))),
      (''bank_account_holder'',
        ZNullable (ZOptional (ZString no_params
          [SMin 2 ''Bank account holder name must be at least 2 characters'',
           SMax 100 (Some ''Bank account holder name must be at most 100 characters''), STrim]))),
      (''bank_name'',
        ZNullable (ZOptional (ZString no_params
          [SMin 2 ''Bank name must be at least 2 characters'',
           SMax 100 (Some ''Bank name must be at most 100 characters''), STrim]))),
      (''paypal_email'', ZNullable (ZOptional emailSchema)),
      (''payout_method'', ZNullable (ZOptional payoutMethodSchema))]"

subsection \<open>loginSchema\<close>

text \<open>
  \<^verbatim>\<open>const now = Math.floor(Date.now() / 1000); const fiveMinutesAgo = now - 300;\<close>
  \<^verbatim>\<open>return timestamp >= fiveMinutesAgo && timestamp <= now + 60;\<close>
\<close>

definition auth_date_in_window :: "env \<Rightarrow> jv \<Rightarrow> bool" where
  "auth_date_in_window e v =
     (case v of
        JNum timestamp \<Rightarrow>
          (let now = now_ms e div 1000;
               fiveMinutesAgo = now - 300
           in timestamp \<ge> of_int fiveMinutesAgo \<and> timestamp \<le> of_int (now + 60))
      | _ \<Rightarrow> False)"

definition loginSchema :: schema where
  "loginSchema = ZObject
     [(''id'',
        ZNumber \<lparr>required_error = Some ''Telegram ID is required'',
                 invalid_type_error = Some ''Telegram ID must be a number''\<rparr>
          [NInt (Some ''Telegram ID must be an integer''),
           NMin 0 False ''Telegram ID must be positive'']),
      (''first_name'',
        ZString \<lparr>required_error = Some ''First name is required'',
                 invalid_type_error = Some ''First name must be a string''\<rparr>
          [SMin 1 ''First name must be at least 1 character'',
           SMax 100 (Some ''First name must be at most 100 characters''), STrim]),
      (''username'',
        ZOptional (ZString no_params
          [SMin 3 ''Username must be at least 3 characters'',
           SMax 50 (Some ''Username must be at most 50 characters''), STrim])),
      (''last_name'',
        ZOptional (ZString no_params
          [SMax 100 (Some ''Last name must be at most 100 characters''), STrim])),
      (''photo_url'', ZOptional urlSchema),
      (''auth_date'',
        ZRefine
          (ZNumber \<lparr>required_error = Some ''Authentication date is required'',
                    invalid_type_error = Some ''Authentication date must be a number''\<rparr>
             [NInt (Some ''Authentication date must be an integer''),
              NMin 0 False ''Authentication date must be positive''])
          auth_date_in_window ''Authentication date is invalid or expired''),
      (''hash'',
        ZString \<lparr>required_error = Some ''Authentication hash is required'',
                 invalid_type_error = Some ''Hash must be a string''\<rparr>
          [SMin 64 ''Invalid hash format'', SMax 64 (Some ''Invalid hash format''),
           SRegex hash_rx ''Hash must be a valid SHA-256 hex string''])]"

subsection \<open>createUserRecordSchema\<close>

definition createUserRecordSchema :: schema where
  "createUserRecordSchema = ZObject
     [(''exercise_name'',
        ZString \<lparr>required_error = Some ''Exercise name is required'',
                 invalid_type_error = Some ''Exercise name must be a string''\<rparr>
          [SMin 1 ''Exercise name must be at least 1 character'',
           SMax 100 (Some ''Exercise name must be at most 100 characters''), STrim]),
      (''record_type'',
        ZString \<lparr>required_error = Some ''Record type is required'',
                 invalid_type_error = Some ''Record type must be a string''\<rparr>
          [SMin 1 ''Record type must be at least 1 character'',
           SMax 50 (Some ''Record type must be at most 50 characters''), STrim]),
      (''value'',
        ZNumber \<lparr>required_error = Some ''Record value is required'',
                 invalid_type_error = Some ''Record value must be a number''\<rparr>
          [NMin 0 False ''Record value must be positive'',
           NMax 100000 True ''Record value seems unreasonably high'']),
      (''unit'',
        ZOptional (ZString no_params [SMax 20 (Some ''Unit must be at most 20 characters''), STrim])),
      (''achieved_at'',
        ZOptional (ZRefine
          (ZString no_params [SDatetime ''Achieved date must be a valid ISO 8601 date''])
          not_in_future ''Achieved date cannot be in the future''))]"

subsection \<open>paginationQuerySchema\<close>

text \<open>\<^verbatim>\<open>(val) => parseInt(val, 10)\<close>, called on the string the schema beneath has accepted.\<close>

definition parse_int_transform :: "env \<Rightarrow> jv \<Rightarrow> jv" where
  "parse_int_transform e v = (case v of JStr s \<Rightarrow> parseInt s | _ \<Rightarrow> JNaN)"

text \<open>\<^verbatim>\<open>(val) => !isNaN(val) && val > 0\<close>\<close>

definition page_ok :: "env \<Rightarrow> jv \<Rightarrow> bool" where
  "page_ok e v = (case v of JNum r \<Rightarrow> r > 0 | JInf positive \<Rightarrow> positive | _ \<Rightarrow> False)"

text \<open>\<^verbatim>\<open>(val) => !isNaN(val) && val > 0 && val <= 100\<close>\<close>

definition limit_ok :: "env \<Rightarrow> jv \<Rightarrow> bool" where
  "limit_ok e v = (case v of JNum r \<Rightarrow> r > 0 \<and> r \<le> 100 | _ \<Rightarrow> False)"

definition paginationQuerySchema :: schema where
  "paginationQuerySchema = ZObject
     [(''page'',
        ZRefine
          (ZTransform (ZDefault (ZOptional (ZString no_params [])) (JStr ''1'')) parse_int_transform)
          page_ok ''Page must be a positive number''),
      (''limit'',
        ZRefine
          (ZTransform (ZDefault (ZOptional (ZString no_params [])) (JStr ''10'')) parse_int_transform)
          limit_ok ''Limit must be between 1 and 100''),
      (''sortBy'', ZOptional (ZString no_params [SMax 50 None])),
      (''order'', ZDefault (ZOptional (ZEnum [''asc'', ''desc''] None)) (JStr ''asc''))]"

text \<open>The object schemas of the registry \<^verbatim>\<open>userSchemas\<close>, and the shape of an object schema.\<close>

definition object_schemas :: "schema list" where
  "object_schemas =
     [createUserSchema, updateUserSchema, loginSchema, createUserRecordSchema,
      paginationQuerySchema]"

fun shape_keys :: "schema \<Rightarrow> string list" where
  "shape_keys (ZObject shape) = map fst shape"
| "shape_keys s = []"

section \<open>The middleware of validate.middleware.ts\<close>

text \<open>
  The middleware sees a schema through its \<^verbatim>\<open>parseAsync\<close> method only: a function of the
  data that settles as a value, a \<^verbatim>\<open>ZodError\<close> or another fault, and that may read the
  clock and the process environment.
\<close>

type_synonym ZodSchema = "env \<Rightarrow> jv \<Rightarrow> settled"

definition zod :: "schema \<Rightarrow> ZodSchema" where
  "zod s = (\<lambda>e v. parseAsync e s v)"

datatype ValidationTarget = Body | Params | Query

record request =
  body :: jv
  params :: jv
  query :: jv

fun get_target :: "request \<Rightarrow> ValidationTarget \<Rightarrow> jv" where
  "get_target req Body = body req"
| "get_target req Params = params req"
| "get_target req Query = query req"

fun set_target :: "request \<Rightarrow> ValidationTarget \<Rightarrow> jv \<Rightarrow> request" where
  "set_target req Body v = req\<lparr>body := v\<rparr>"
| "set_target req Params v = req\<lparr>params := v\<rparr>"
| "set_target req Query v = req\<lparr>query := v\<rparr>"

record ValidationOptions =
  stripUnknown :: "bool option"
  abortEarly :: "bool option"

datatype ApiErrorCode =
    UNAUTHORIZED | INVALID_TOKEN | TOKEN_EXPIRED | TELEGRAM_AUTH_FAILED
  | FORBIDDEN | INSUFFICIENT_PERMISSIONS
  | NOT_FOUND | USER_NOT_FOUND | WORKOUT_NOT_FOUND | COMMUNITY_NOT_FOUND
  | VALIDATION_ERROR | INVALID_INPUT | MISSING_REQUIRED_FIELD
  | ALREADY_EXISTS | USER_ALREADY_EXISTS | DUPLICATE_ENTRY
  | INTERNAL_ERROR | DATABASE_ERROR | EXTERNAL_SERVICE_ERROR

fun code_value :: "ApiErrorCode \<Rightarrow> string" where
  "code_value UNAUTHORIZED = ''UNAUTHORIZED''"
| "code_value INVALID_TOKEN = ''INVALID_TOKEN''"
| "code_value TOKEN_EXPIRED = ''TOKEN_EXPIRED''"
| "code_value TELEGRAM_AUTH_FAILED = ''TELEGRAM_AUTH_FAILED''"
| "code_value FORBIDDEN = ''FORBIDDEN''"
| "code_value INSUFFICIENT_PERMISSIONS = ''INSUFFICIENT_PERMISSIONS''"
| "code_value NOT_FOUND = ''NOT_FOUND''"
| "code_value USER_NOT_FOUND = ''USER_NOT_FOUND''"
| "code_value WORKOUT_NOT_FOUND = ''WORKOUT_NOT_FOUND''"
| "code_value COMMUNITY_NOT_FOUND = ''COMMUNITY_NOT_FOUND''"
| "code_value VALIDATION_ERROR = ''VALIDATION_ERROR''"
| "code_value INVALID_INPUT = ''INVALID_INPUT''"
| "code_value MISSING_REQUIRED_FIELD = ''MISSING_REQUIRED_FIELD''"
| "code_value ALREADY_EXISTS = ''ALREADY_EXISTS''"
| "code_value USER_ALREADY_EXISTS = ''USER_ALREADY_EXISTS''"
| "code_value DUPLICATE_ENTRY = ''DUPLICATE_ENTRY''"
| "code_value INTERNAL_ERROR = ''INTERNAL_ERROR''"
| "code_value DATABASE_ERROR = ''DATABASE_ERROR''"
| "code_value EXTERNAL_SERVICE_ERROR = ''EXTERNAL_SERVICE_ERROR''"

text \<open>
  \<^verbatim>\<open>res.json\<close> sends \<^verbatim>\<open>JSON.stringify\<close> of its argument: a property whose value is
  \<^verbatim>\<open>undefined\<close> is left out, \<^verbatim>\<open>undefined\<close> in an array and \<^verbatim>\<open>NaN\<close> become
  \<^verbatim>\<open>null\<close>. \<open>stringify\<close> gives the value the client reads back.
\<close>

fun stringify :: "jv \<Rightarrow> jv"
  and stringify_props :: "(string \<times> jv) list \<Rightarrow> (string \<times> jv) list"
  and stringify_items :: "jv list \<Rightarrow> jv list"
where
  "stringify (JObj kvs) = JObj (stringify_props kvs)"
| "stringify (JArr xs) = JArr (stringify_items xs)"
| "stringify JNaN = JNull"
| "stringify (JInf positive) = JNull"
| "stringify JUndefined = JNull"
| "stringify JNull = JNull"
| "stringify (JBool b) = JBool b"
| "stringify (JNum r) = JNum r"
| "stringify (JStr s) = JStr s"
| "stringify_props [] = []"
| "stringify_props ((k, v) # kvs) =
     (if v = JUndefined then stringify_props kvs else (k, stringify v) # stringify_props kvs)"
| "stringify_items [] = []"
| "stringify_items (x # xs) = stringify x # stringify_items xs"

record response =
  status :: nat
  json :: jv

text \<open>
  What a middleware run leaves behind: the request as it is afterwards, the response if one
  was sent, and whether \<^verbatim>\<open>next()\<close> was called.
\<close>

record outcome =
  request_after :: request
  sent :: "response option"
  next_called :: bool

text \<open>
  \<^verbatim>\<open>error.errors.map((err) => ({field: err.path.join('.'), message: err.message,\<close>
  \<^verbatim>\<open>value: err.code === 'invalid_type' ? undefined : err.received}))\<close>
\<close>

definition format_error :: "issue \<Rightarrow> jv" where
  "format_error err =
     JObj [(''field'', JStr (join ''.'' (path err))),
           (''message'', JStr (message err)),
           (''value'', if code err = invalid_type then JUndefined else received err)]"

definition validation_failed :: "jv list \<Rightarrow> response" where
  "validation_failed details =
     \<lparr>status = 400,
      json = stringify (JObj
        [(''success'', JBool False),
         (''error'', JObj
            [(''message'', JStr ''Validation failed''),
             (''code'', JStr (code_value VALIDATION_ERROR)),
             (''details'', JArr details)])])\<rparr>"

definition internal_validation_error :: response where
  "internal_validation_error =
     \<lparr>status = 500,
      json = stringify (JObj
        [(''success'', JBool False),
         (''error'', JObj
            [(''message'', JStr ''Internal validation error''),
             (''code'', JStr (code_value INTERNAL_ERROR))])])\<rparr>"

text \<open>\<^verbatim>\<open>validationErrors[0]\<close>, which is \<^verbatim>\<open>undefined\<close> on an empty array.\<close>

definition first_or_undefined :: "jv list \<Rightarrow> jv" where
  "first_or_undefined xs = (case xs of [] \<Rightarrow> JUndefined | x # _ \<Rightarrow> x)"

definition validate :: "ZodSchema \<Rightarrow> ValidationTarget \<Rightarrow> ValidationOptions \<Rightarrow> env \<Rightarrow> request \<Rightarrow> outcome" where
  "validate schema target options e req =
     (let abort = (case abortEarly options of None \<Rightarrow> False | Some b \<Rightarrow> b);
          dataToValidate = get_target req target
      in case schema e dataToValidate of
           Resolved validated \<Rightarrow>
             \<lparr>request_after = set_target req target validated, sent = None, next_called = True\<rparr>
         | RejectedZod errors \<Rightarrow>
             (let validationErrors = map format_error errors
              in \<lparr>request_after = req,
                  sent = Some (validation_failed
                           (if abort then [first_or_undefined validationErrors]
                            else validationErrors)),
                  next_called = False\<rparr>)
         | RejectedOther fault \<Rightarrow>
             \<lparr>request_after = req, sent = Some internal_validation_error, next_called = False\<rparr>)"

definition default_options :: ValidationOptions where
  "default_options = \<lparr>stripUnknown = None, abortEarly = None\<rparr>"

definition validateBody :: "ZodSchema \<Rightarrow> env \<Rightarrow> request \<Rightarrow> outcome" where
  "validateBody schema = validate schema Body default_options"

definition validateParams :: "ZodSchema \<Rightarrow> env \<Rightarrow> request \<Rightarrow> outcome" where
  "validateParams schema = validate schema Params default_options"

definition validateQuery :: "ZodSchema \<Rightarrow> env \<Rightarrow> request \<Rightarrow> outcome" where
  "validateQuery schema = validate schema Query default_options"

subsection \<open>validateMultiple\<close>

record schemas =
  body_schema :: "ZodSchema option"
  params_schema :: "ZodSchema option"
  query_schema :: "ZodSchema option"

text \<open>
  The three \<^verbatim>\<open>if\<close> blocks: every schema that is provided has its \<^verbatim>\<open>parseAsync\<close> called
  on its part of the request, and its target recorded, before anything is awaited. The
  list pairs each entry of \<^verbatim>\<open>targets\<close> with the way its promise settles.
\<close>

definition started :: "schemas \<Rightarrow> env \<Rightarrow> request \<Rightarrow> (ValidationTarget \<times> settled) list" where
  "started ss e req =
     (case body_schema ss of Some s \<Rightarrow> [(Body, s e (body req))] | None \<Rightarrow> [])
     @ (case params_schema ss of Some s \<Rightarrow> [(Params, s e (params req))] | None \<Rightarrow> [])
     @ (case query_schema ss of Some s \<Rightarrow> [(Query, s e (query req))] | None \<Rightarrow> [])"

fun is_resolved :: "settled \<Rightarrow> bool" where
  "is_resolved (Resolved v) = True"
| "is_resolved r = False"

text \<open>\<^verbatim>\<open>results.forEach((result, index) => { req[targets[index]] = result; })\<close>\<close>

fun commit :: "request \<Rightarrow> (ValidationTarget \<times> settled) list \<Rightarrow> request" where
  "commit req [] = req"
| "commit req ((t, Resolved v) # rest) = commit (set_target req t v) rest"
| "commit req ((t, r) # rest) = commit req rest"

text \<open>
  \<^verbatim>\<open>await Promise.all(validationPromises)\<close> throws the reason of the promise that rejects
  first. Which of several rejecting promises that is depends on the event loop; the number
  \<open>first\<close> stands for its choice.
\<close>

definition validateMultiple :: "nat \<Rightarrow> schemas \<Rightarrow> env \<Rightarrow> request \<Rightarrow> outcome" where
  "validateMultiple first ss e req =
     (let promises = started ss e req;
          rejected = filter (\<lambda>r. \<not> is_resolved r) (map snd promises)
      in if rejected = []
         then \<lparr>request_after = commit req promises, sent = None, next_called = True\<rparr>
         else (case rejected ! (first mod length rejected) of
                 RejectedZod errors \<Rightarrow>
                   \<lparr>request_after = req,
                    sent = Some (validation_failed (map format_error errors)),
                    next_called = False\<rparr>
               | _ \<Rightarrow>
                   \<lparr>request_after = req, sent = Some internal_validation_error,
                    next_called = False\<rparr>))"

subsection \<open>The global error handler of the server\<close>

text \<open>
  The last handler of the server entry point, for an error passed on by a route:
  \<^verbatim>\<open>message: process.env.NODE_ENV === 'production' ? 'Internal server error' : err.message\<close>,
  and the stack is added when \<^verbatim>\<open>NODE_ENV\<close> is \<^verbatim>\<open>development\<close>.
\<close>

record js_error =
  err_message :: string
  err_stack :: string

definition global_error_handler :: "env \<Rightarrow> js_error \<Rightarrow> response" where
  "global_error_handler e err =
     \<lparr>status = 500,
      json = stringify (JObj
        [(''success'', JBool False),
         (''error'', JObj
            ([(''message'', JStr (if node_env e = Some ''production''
                                   then ''Internal server error'' else err_message err)),
              (''code'', JStr ''INTERNAL_ERROR'')]
             @ (if node_env e = Some ''development'' then [(''stack'', JStr (err_stack err))]
                else [])))])\<rparr>"

section \<open>Notions used in the statements\<close>

text \<open>The shape of an object schema, and the result of one field of it on a value.\<close>

fun shape :: "schema \<Rightarrow> (string \<times> schema) list" where
  "shape (ZObject sh) = sh"
| "shape s = []"

definition eval_field :: "env \<Rightarrow> schema \<Rightarrow> string \<Rightarrow> jv \<Rightarrow> parse_return" where
  "eval_field e S k v =
     (case map_of (shape S) k of Some s \<Rightarrow> parse e s [k] v | None \<Rightarrow> OK JUndefined)"

text \<open>A schema without an object inside: all its issues are reported at its own path.\<close>

fun flat :: "schema \<Rightarrow> bool" where
  "flat (ZObject sh) = False"
| "flat (ZOptional s) = flat s"
| "flat (ZNullable s) = flat s"
| "flat (ZDefault s d) = flat s"
| "flat (ZRefine s f m) = flat s"
| "flat (ZTransform s f) = flat s"
| "flat s = True"

text \<open>
  Two orders in which the issues of an object could be listed. \<open>issues_by_field\<close> is the
  order of the declaration of the fields, all issues of a field together.
  \<open>issues_as_pushed\<close> has the issues of the checks of all fields first, then those of the
  refinements, each group in the order of the declaration.
\<close>

definition issues_by_field :: "env \<Rightarrow> schema \<Rightarrow> (string \<times> jv) list \<Rightarrow> issue list" where
  "issues_by_field e S kvs =
     concat (map (\<lambda>k. all_issues (eval_field e S k (get_prop kvs k))) (shape_keys S))"

definition issues_as_pushed :: "env \<Rightarrow> schema \<Rightarrow> (string \<times> jv) list \<Rightarrow> issue list" where
  "issues_as_pushed e S kvs =
     concat (map (\<lambda>k. issues_now (eval_field e S k (get_prop kvs k))) (shape_keys S))
     @ concat (map (\<lambda>k. issues_later (eval_field e S k (get_prop kvs k))) (shape_keys S))"

text \<open>The entries of \<^verbatim>\<open>details\<close> in a response, and the \<^verbatim>\<open>field\<close> of each.\<close>

definition details_of :: "outcome \<Rightarrow> jv list" where
  "details_of out =
     (case sent out of
        Some res \<Rightarrow>
          (case get_prop (case json res of JObj kvs \<Rightarrow> kvs | _ \<Rightarrow> []) ''error'' of
             JObj err \<Rightarrow> (case get_prop err ''details'' of JArr ds \<Rightarrow> ds | _ \<Rightarrow> [])
           | _ \<Rightarrow> [])
      | None \<Rightarrow> [])"

definition field_of :: "jv \<Rightarrow> jv" where
  "field_of d = (case d of JObj kvs \<Rightarrow> get_prop kvs ''field'' | _ \<Rightarrow> JUndefined)"

section \<open>The contract of the error response, and sample data\<close>

text \<open>
  An entry of \<^verbatim>\<open>details\<close> as the contract describes it: the field path joined by dots,
  the message, and the rejected value unless the issue is a type mismatch or has no value
  to show.
\<close>

definition detail_entry :: "issue \<Rightarrow> jv" where
  "detail_entry err =
     JObj ([(''field'', JStr (join ''.'' (path err))), (''message'', JStr (message err))]
           @ (if code err = invalid_type \<or> received err = JUndefined then []
              else [(''value'', stringify (received err))]))"

definition validation_body :: "jv list \<Rightarrow> jv" where
  "validation_body details =
     JObj [(''success'', JBool False),
           (''error'', JObj [(''message'', JStr ''Validation failed''),
                             (''code'', JStr ''VALIDATION_ERROR''),
                             (''details'', JArr details)])]"

definition internal_body :: jv where
  "internal_body =
     JObj [(''success'', JBool False),
           (''error'', JObj [(''message'', JStr ''Internal validation error''),
                             (''code'', JStr ''INTERNAL_ERROR'')])]"

text \<open>
  A sample environment for the concrete cases. The clock stands at 1700000000.123 seconds;
  simple stand-ins take the place of the library's e-mail, URL and date-time tests. No
  general statement below depends on it.
\<close>

definition sample_env :: env where
  "sample_env =
     \<lparr>now_ms = 1700000000123, node_env = Some ''production'',
      is_email = (\<lambda>s. CHR ''@'' \<in> set s),
      is_url = (\<lambda>s. take 7 s = ''http://'' \<or> take 8 s = ''https://''),
      is_datetime = (\<lambda>s. s = ''2000-01-01T00:00:00Z''),
      date_ms = (\<lambda>s. if s = ''2000-01-01T00:00:00Z'' then Some 946684800000 else None)\<rparr>"

definition empty_request :: request where
  "empty_request = \<lparr>body = JObj [], params = JObj [], query = JObj []\<rparr>"

text \<open>The update of the specification's example: three fields out of range, the rest valid.\<close>

definition bad_update_fields :: "(string \<times> jv) list" where
  "bad_update_fields =
     [(''id'', JNum 7), (''first_name'', JStr ''Olha''), (''height_cm'', JNum 10),
      (''weight_kg'', JNum 1000), (''email'', JStr ''not-an-email'')]"

definition bad_update :: jv where
  "bad_update = JObj bad_update_fields"

text \<open>A login whose time stamp is 1000 seconds old and whose hash is not hexadecimal.\<close>

definition stale_login_fields :: "(string \<times> jv) list" where
  "stale_login_fields =
     [(''id'', JNum 7), (''first_name'', JStr ''Olha''), (''auth_date'', JNum 1699999000),
      (''hash'', JStr (replicate 64 CHR ''z''))]"

definition stale_login :: jv where
  "stale_login = JObj stale_login_fields"

definition abort_early :: ValidationOptions where
  "abort_early = \<lparr>stripUnknown = None, abortEarly = Some True\<rparr>"

text \<open>A request with a valid update as body and a limit out of range among its parameters.\<close>

definition mixed_request :: request where
  "mixed_request =
     \<lparr>body = JObj [(''id'', JNum 7), (''first_name'', JStr ''  Olha ''), (''extra'', JBool True)],
      params = JObj [(''limit'', JStr ''0'')],
      query = JObj []\<rparr>"


text \<open>A login that is valid on the sample clock: its time stamp is exactly 300 seconds old.\<close>

definition fresh_login_fields :: "(string \<times> jv) list" where
  "fresh_login_fields =
     [(''id'', JNum 7), (''first_name'', JStr ''Olha''), (''auth_date'', JNum 1699999700),
      (''hash'', JStr (replicate 64 CHR ''a''))]"



text \<open>
  The violations of a string or a number, as the error policy words them: every check that
  the data violates gives one entry, whatever the checks before it found. A check of a
  string sees the data as the trimming and lower-casing before it left it.
\<close>

fun str_violated :: "env \<Rightarrow> str_check \<Rightarrow> string \<Rightarrow> bool" where
  "str_violated e (SMin n m) s = (length s < n)"
| "str_violated e (SMax n m) s = (n < length s)"
| "str_violated e (SEmail m) s = (\<not> is_email e s)"
| "str_violated e (SUrl m) s = (\<not> is_url e s)"
| "str_violated e (SRegex r m) s = (\<not> rx_test r s)"
| "str_violated e (SDatetime m) s = (\<not> is_datetime e s)"
| "str_violated e SToLowerCase s = False"
| "str_violated e STrim s = False"

fun str_entry :: "str_check \<Rightarrow> string list \<Rightarrow> issue" where
  "str_entry (SMin n m) p = \<lparr>code = too_small, path = p, message = m, received = JUndefined\<rparr>"
| "str_entry (SMax n m) p =
     \<lparr>code = too_big, path = p,
      message = (case m of Some t \<Rightarrow> t
                 | None \<Rightarrow> ''String must contain at most '' @ show_nat n @ '' character(s)''),
      received = JUndefined\<rparr>"
| "str_entry (SEmail m) p = \<lparr>code = invalid_string, path = p, message = m, received = JUndefined\<rparr>"
| "str_entry (SUrl m) p = \<lparr>code = invalid_string, path = p, message = m, received = JUndefined\<rparr>"
| "str_entry (SRegex r m) p = \<lparr>code = invalid_string, path = p, message = m, received = JUndefined\<rparr>"
| "str_entry (SDatetime m) p = \<lparr>code = invalid_string, path = p, message = m, received = JUndefined\<rparr>"
| "str_entry SToLowerCase p = \<lparr>code = custom, path = p, message = [], received = JUndefined\<rparr>"
| "str_entry STrim p = \<lparr>code = custom, path = p, message = [], received = JUndefined\<rparr>"

fun seen_by :: "str_check list \<Rightarrow> string \<Rightarrow> (str_check \<times> string) list" where
  "seen_by [] s = []"
| "seen_by (STrim # cs) s = (STrim, s) # seen_by cs (trim s)"
| "seen_by (SToLowerCase # cs) s = (SToLowerCase, s) # seen_by cs (toLowerCase s)"
| "seen_by (c # cs) s = (c, s) # seen_by cs s"

definition string_violations :: "env \<Rightarrow> str_check list \<Rightarrow> string list \<Rightarrow> string \<Rightarrow> issue list" where
  "string_violations e cs p s =
     map (\<lambda>(c, d). str_entry c p) (filter (\<lambda>(c, d). str_violated e c d) (seen_by cs s))"

fun num_violated :: "num_check \<Rightarrow> rat \<Rightarrow> bool" where
  "num_violated (NInt m) r = (r \<notin> \<int>)"
| "num_violated (NMin b inclusive m) r = (if inclusive then r < b else r \<le> b)"
| "num_violated (NMax b inclusive m) r = (if inclusive then b < r else b \<le> r)"

fun num_entry :: "tparams \<Rightarrow> num_check \<Rightarrow> string list \<Rightarrow> issue" where
  "num_entry tp (NInt m) p =
     \<lparr>code = invalid_type, path = p,
      message = (case m of Some t \<Rightarrow> t
                 | None \<Rightarrow> (case invalid_type_error tp of Some t \<Rightarrow> t
                            | None \<Rightarrow> ''Expected integer, received float'')),
      received = JStr ''float''\<rparr>"
| "num_entry tp (NMin b inclusive m) p =
     \<lparr>code = too_small, path = p, message = m, received = JUndefined\<rparr>"
| "num_entry tp (NMax b inclusive m) p =
     \<lparr>code = too_big, path = p, message = m, received = JUndefined\<rparr>"

definition number_violations :: "tparams \<Rightarrow> num_check list \<Rightarrow> string list \<Rightarrow> rat \<Rightarrow> issue list" where
  "number_violations tp cs p r = map (\<lambda>c. num_entry tp c p) (filter (\<lambda>c. num_violated c r) cs)"

text \<open>
  A field schema that only tests and trims: no object, no \<^verbatim>\<open>transform\<close> and no
  \<^verbatim>\<open>default\<close> inside. The schemas of the registry whose fields are all of this kind.
\<close>

fun plain :: "schema \<Rightarrow> bool" where
  "plain (ZObject sh) = False"
| "plain (ZTransform s f) = False"
| "plain (ZDefault s d) = False"
| "plain (ZOptional s) = plain s"
| "plain (ZNullable s) = plain s"
| "plain (ZRefine s f m) = plain s"
| "plain s = True"

definition plain_schemas :: "schema list" where
  "plain_schemas = [createUserSchema, updateUserSchema, loginSchema, createUserRecordSchema]"

text \<open>A new user whose names carry white space around them.\<close>

definition padded_user_fields :: "(string \<times> jv) list" where
  "padded_user_fields =
     [(''id'', JNum 7), (''first_name'', JStr ''  Olha ''), (''username'', JStr ''olha_k''),
      (''last_name'', JStr '' K. ''), (''photo_url'', JNull), (''role'', JStr ''coach'')]"

section \<open>Properties of the engine\<close>

text \<open>A result that is not valid has left at least one issue behind.\<close>

lemma parse_invalid_has_issue:
  "p_status (parse e s p v) \<noteq> Valid \<Longrightarrow> all_issues (parse e s p v) \<noteq> []"
  "\<forall>x \<in> set (parse_shape e sh p kvs).
     p_status (snd (snd x)) \<noteq> Valid \<longrightarrow> all_issues (snd (snd x)) \<noteq> []"
proof (induction e s p v and e sh p kvs rule: parse_parse_shape.induct)
  case (1 e tp cs p v)
  then show ?case
    by (cases v) (auto simp: all_issues_def INVALID_def split: prod.splits if_splits)
next
  case (2 e tp cs p v)
  then show ?case
    by (cases v) (simp_all add: all_issues_def INVALID_def Let_def split: if_splits)
next
  case (3 e p v)
  then show ?case by (cases v) (auto simp: all_issues_def INVALID_def OK_def)
next
  case (4 e vs em p v)
  then show ?case
    by (cases v) (auto simp: all_issues_def INVALID_def OK_def enum_parse_def split: if_splits)
next
  case (5 e s p v)
  then show ?case by (auto simp: OK_def)
next
  case (6 e s p v)
  then show ?case by (auto simp: OK_def)
next
  case (7 e s d p v)
  then show ?case by auto
next
  case (8 e s f m p v)
  then show ?case by (auto simp: Let_def all_issues_def split: if_splits)
next
  case (9 e s f p v)
  then show ?case by (auto simp: Let_def all_issues_def split: if_splits)
next
  case (10 e sh p v)
  show ?case
  proof (cases v)
    case (JObj kvs)
    with 10 show ?thesis
      by (fastforce simp: mergeObject_def Let_def all_issues_def list_ex_iff case_prod_beta
            split: if_splits)
  qed (auto simp: all_issues_def INVALID_def)
next
  case (11 e p kvs)
  then show ?case by simp
next
  case (12 e k s sh p kvs)
  then show ?case by auto
qed

text \<open>So \<^verbatim>\<open>parseAsync\<close> of a schema term never ends in a fault: it resolves or it rejects with a non-empty \<^verbatim>\<open>ZodError\<close>.\<close>

lemma parseAsync_cases:
  "(\<exists>v. parseAsync e s x = Resolved v)
   \<or> (\<exists>errors. errors \<noteq> [] \<and> parseAsync e s x = RejectedZod errors)"
  using parse_invalid_has_issue(1)[of e s "[]" x]
  by (auto simp: parseAsync_def Let_def)

subsection \<open>Objects: issues, status and value field by field\<close>

lemma parse_shape_map:
  "parse_shape e sh p kvs =
     map (\<lambda>ks. (fst ks, has_key kvs (fst ks), parse e (snd ks) (p @ [fst ks]) (get_prop kvs (fst ks)))) sh"
  by (induction sh) auto

lemma object_issues_now:
  "issues_now (parse e (ZObject sh) p (JObj kvs)) =
     concat (map (\<lambda>ks. issues_now (parse e (snd ks) (p @ [fst ks]) (get_prop kvs (fst ks)))) sh)"
  by (simp add: mergeObject_def Let_def parse_shape_map comp_def case_prod_beta)

lemma object_issues_later:
  "issues_later (parse e (ZObject sh) p (JObj kvs)) =
     concat (map (\<lambda>ks. issues_later (parse e (snd ks) (p @ [fst ks]) (get_prop kvs (fst ks)))) sh)"
  by (simp add: mergeObject_def Let_def parse_shape_map comp_def case_prod_beta)

lemma valid_iff: "(st = Valid) = (st \<noteq> Aborted \<and> st \<noteq> Dirty)"
  by (cases st) auto

lemma object_status:
  "p_status (parse e (ZObject sh) p (JObj kvs)) = Valid \<longleftrightarrow>
     (\<forall>ks \<in> set sh. p_status (parse e (snd ks) (p @ [fst ks]) (get_prop kvs (fst ks))) = Valid)"
proof -
  have "p_status (parse e (ZObject sh) p (JObj kvs)) = Valid \<longleftrightarrow>
     (\<forall>ks \<in> set sh. p_status (parse e (snd ks) (p @ [fst ks]) (get_prop kvs (fst ks))) \<noteq> Aborted
        \<and> p_status (parse e (snd ks) (p @ [fst ks]) (get_prop kvs (fst ks))) \<noteq> Dirty)"
    by (simp add: mergeObject_def Let_def parse_shape_map comp_def list_ex_iff) blast
  then show ?thesis by (simp add: valid_iff[symmetric])
qed

lemma object_aborted:
  "p_status (parse e (ZObject sh) p (JObj kvs)) = Aborted \<longleftrightarrow>
     (\<exists>ks \<in> set sh. p_status (parse e (snd ks) (p @ [fst ks]) (get_prop kvs (fst ks))) = Aborted)"
  by (simp add: mergeObject_def Let_def parse_shape_map comp_def list_ex_iff)

lemma object_value:
  "p_status (parse e (ZObject sh) p (JObj kvs)) \<noteq> Aborted \<Longrightarrow>
   p_value (parse e (ZObject sh) p (JObj kvs)) =
     JObj (map (\<lambda>ks. (fst ks, p_value (parse e (snd ks) (p @ [fst ks]) (get_prop kvs (fst ks)))))
            (filter (\<lambda>ks. fst ks \<noteq> ''__proto__''
               \<and> (p_value (parse e (snd ks) (p @ [fst ks]) (get_prop kvs (fst ks))) \<noteq> JUndefined
                  \<or> has_key kvs (fst ks))) sh))"
proof -
  assume na: "p_status (parse e (ZObject sh) p (JObj kvs)) \<noteq> Aborted"
  then have "\<not> list_ex (\<lambda>r. p_status r = Aborted)
                 (map (\<lambda>(k, always, r). r) (parse_shape e sh p kvs))"
    by (simp add: mergeObject_def Let_def split: if_splits)
  then show ?thesis
    by (simp add: mergeObject_def Let_def) (simp add: parse_shape_map filter_map comp_def)
qed

lemma eval_field_eq:
  "distinct (map fst sh) \<Longrightarrow> ks \<in> set sh \<Longrightarrow>
   eval_field e (ZObject sh) (fst ks) v = parse e (snd ks) [fst ks] v"
  by (cases ks) (simp add: eval_field_def)

lemma string_checks_path:
  "j \<in> set (snd (string_checks e cs p s)) \<Longrightarrow> path j = p"
proof (induction cs arbitrary: s)
  case Nil then show ?case by simp
next
  case (Cons c cs)
  from Cons.prems have "j \<in> set (str_check_issues e c p s) \<or> j \<in> set (snd (string_checks e cs p (str_check_data c s)))"
    by (auto split: prod.splits)
  then show ?case
  proof
    assume "j \<in> set (str_check_issues e c p s)"
    then show ?thesis by (cases c) (auto simp: plain_issue_def split: if_splits)
  next
    assume "j \<in> set (snd (string_checks e cs p (str_check_data c s)))"
    then show ?thesis by (rule Cons.IH)
  qed
qed

lemma num_check_path: "j \<in> set (num_check_issues tp c p r) \<Longrightarrow> path j = p"
  by (cases c) (auto simp: plain_issue_def split: if_splits)

lemma inf_check_path: "j \<in> set (inf_check_issues tp c p positive) \<Longrightarrow> path j = p"
  by (cases c) (auto simp: plain_issue_def split: if_splits)

lemma flat_path:
  "flat s \<Longrightarrow> i \<in> set (all_issues (parse e s p v)) \<Longrightarrow> path i = p"
proof (induction s arbitrary: v i)
  case (ZString tp cs)
  show ?case
  proof (cases v)
    case (JStr x)
    with ZString have "i \<in> set (snd (string_checks e cs p x))"
      by (auto simp: all_issues_def split: prod.splits)
    then show ?thesis by (rule string_checks_path)
  qed (use ZString in \<open>auto simp: all_issues_def INVALID_def type_issue_def\<close>)
next
  case (ZNumber tp cs)
  show ?case
  proof (cases v)
    case (JNum r)
    with ZNumber show ?thesis
      by (auto simp: all_issues_def number_checks_def Let_def dest: num_check_path)
  next
    case (JInf positive)
    with ZNumber show ?thesis
      by (auto simp: all_issues_def Let_def dest: inf_check_path)
  qed (use ZNumber in \<open>auto simp: all_issues_def INVALID_def type_issue_def\<close>)
next
  case ZBoolean
  then show ?case by (cases v) (auto simp: all_issues_def INVALID_def OK_def type_issue_def)
next
  case (ZEnum vs em)
  then show ?case
    by (cases v) (auto simp: all_issues_def INVALID_def OK_def enum_parse_def split: if_splits)
next
  case (ZRefine s f m)
  then show ?case
    by (auto simp: all_issues_def Let_def plain_issue_def split: if_splits)
next
  case (ZTransform s f)
  then show ?case by (auto simp: all_issues_def Let_def split: if_splits)
next
  case (ZOptional s)
  then show ?case by (cases "v = JUndefined") (simp_all add: all_issues_def OK_def)
next
  case (ZNullable s)
  then show ?case by (cases "v = JNull") (simp_all add: all_issues_def OK_def)
next
  case (ZDefault s d)
  then show ?case by simp
next
  case (ZObject sh)
  then show ?case by simp
qed

subsection \<open>The response bodies\<close>

lemma stringify_format_error: "stringify (format_error err) = detail_entry err"
  by (simp add: format_error_def detail_entry_def)

lemma stringify_items_map: "stringify_items (map f xs) = map (\<lambda>x. stringify (f x)) xs"
  by (induction xs) auto

lemma validation_failed_eq:
  "validation_failed (map format_error errs) =
     \<lparr>status = 400, json = validation_body (map detail_entry errs)\<rparr>"
  by (simp add: validation_failed_def validation_body_def stringify_items_map stringify_format_error)

lemma internal_validation_error_eq:
  "internal_validation_error = \<lparr>status = 500, json = internal_body\<rparr>"
  by (simp add: internal_validation_error_def internal_body_def)

text \<open>The fields of an object schema, one by one.\<close>

lemma eval_field_in_shape:
  "distinct (map fst sh) \<Longrightarrow> ks \<in> set sh \<Longrightarrow>
   parse e (snd ks) [fst ks] v = eval_field e (ZObject sh) (fst ks) v"
  by (simp add: eval_field_eq)

lemma object_all_issues:
  assumes "distinct (map fst sh)"
  shows "all_issues (parse e (ZObject sh) [] (JObj kvs)) = issues_as_pushed e (ZObject sh) kvs"
proof -
  have a: "map (\<lambda>ks. issues_now (parse e (snd ks) ([] @ [fst ks]) (get_prop kvs (fst ks)))) sh
        = map (\<lambda>k. issues_now (eval_field e (ZObject sh) k (get_prop kvs k))) (map fst sh)"
    using assms by (simp add: eval_field_in_shape comp_def)
  have b: "map (\<lambda>ks. issues_later (parse e (snd ks) ([] @ [fst ks]) (get_prop kvs (fst ks)))) sh
        = map (\<lambda>k. issues_later (eval_field e (ZObject sh) k (get_prop kvs k))) (map fst sh)"
    using assms by (simp add: eval_field_in_shape comp_def)
  show ?thesis
    unfolding all_issues_def issues_as_pushed_def object_issues_now object_issues_later a b
    by simp
qed

lemma object_valid_iff:
  assumes "distinct (map fst sh)"
  shows "p_status (parse e (ZObject sh) [] (JObj kvs)) = Valid \<longleftrightarrow>
         (\<forall>k \<in> set (map fst sh). p_status (eval_field e (ZObject sh) k (get_prop kvs k)) = Valid)"
  unfolding object_status using assms by (simp add: eval_field_in_shape)

lemma object_valid_value:
  assumes "distinct (map fst sh)" and "''__proto__'' \<notin> set (map fst sh)"
    and "p_status (parse e (ZObject sh) [] (JObj kvs)) = Valid"
  shows "p_value (parse e (ZObject sh) [] (JObj kvs)) =
     JObj (map (\<lambda>k. (k, p_value (eval_field e (ZObject sh) k (get_prop kvs k))))
            (filter (\<lambda>k. p_value (eval_field e (ZObject sh) k (get_prop kvs k)) \<noteq> JUndefined
                          \<or> has_key kvs k) (map fst sh)))"
proof -
  have na: "p_status (parse e (ZObject sh) [] (JObj kvs)) \<noteq> Aborted"
    using assms(3) by simp
  have f: "filter (\<lambda>ks. fst ks \<noteq> ''__proto__''
               \<and> (p_value (parse e (snd ks) ([] @ [fst ks]) (get_prop kvs (fst ks))) \<noteq> JUndefined
                  \<or> has_key kvs (fst ks))) sh
        = filter (\<lambda>ks. p_value (eval_field e (ZObject sh) (fst ks) (get_prop kvs (fst ks))) \<noteq> JUndefined
                  \<or> has_key kvs (fst ks)) sh"
  proof (rule filter_cong[OF refl])
    fix ks assume ks: "ks \<in> set sh"
    with assms(2) have "fst ks \<noteq> ''__proto__''" by force
    with ks assms(1) show "(fst ks \<noteq> ''__proto__''
               \<and> (p_value (parse e (snd ks) ([] @ [fst ks]) (get_prop kvs (fst ks))) \<noteq> JUndefined
                  \<or> has_key kvs (fst ks)))
        = (p_value (eval_field e (ZObject sh) (fst ks) (get_prop kvs (fst ks))) \<noteq> JUndefined
                  \<or> has_key kvs (fst ks))"
      by (simp add: eval_field_in_shape)
  qed
  show ?thesis
    unfolding object_value[OF na] f
    using assms(1) by (simp add: filter_map comp_def eval_field_in_shape)
qed

subsection \<open>Valid results, and the shapes of the registry\<close>

lemma concat_all_empty: "(\<forall>x \<in> set xs. f x = []) \<Longrightarrow> concat (map f xs) = []"
  by (induction xs) auto

lemma parse_valid_no_issue:
  "p_status (parse e s p v) = Valid \<Longrightarrow> all_issues (parse e s p v) = []"
  "\<forall>x \<in> set (parse_shape e sh p kvs).
     p_status (snd (snd x)) = Valid \<longrightarrow> all_issues (snd (snd x)) = []"
proof (induction e s p v and e sh p kvs rule: parse_parse_shape.induct)
  case (1 e tp cs p v)
  then show ?case
    by (cases v) (auto simp: all_issues_def INVALID_def split: prod.splits if_splits)
next
  case (2 e tp cs p v)
  then show ?case
    by (cases v) (simp_all add: all_issues_def INVALID_def Let_def split: if_splits)
next
  case (3 e p v)
  then show ?case by (cases v) (auto simp: all_issues_def INVALID_def OK_def)
next
  case (4 e vs em p v)
  then show ?case
    by (cases v) (auto simp: all_issues_def INVALID_def OK_def enum_parse_def split: if_splits)
next
  case (5 e s p v)
  then show ?case by (cases "v = JUndefined") (simp_all add: OK_def all_issues_def)
next
  case (6 e s p v)
  then show ?case by (cases "v = JNull") (simp_all add: OK_def all_issues_def)
next
  case (7 e s d p v)
  then show ?case by simp
next
  case (8 e s f m p v)
  then show ?case by (simp add: Let_def all_issues_def split: if_splits)
next
  case (9 e s f p v)
  then show ?case by (simp add: Let_def all_issues_def split: if_splits)
next
  case (10 e sh p v)
  show ?case
  proof (cases v)
    case (JObj kvs)
    from 10(2) JObj have allv: "\<forall>x \<in> set (parse_shape e sh p kvs). p_status (snd (snd x)) = Valid"
      by (simp add: mergeObject_def Let_def list_ex_iff case_prod_beta valid_iff split: if_splits)
    with 10(1)[OF JObj] have "\<forall>x \<in> set (parse_shape e sh p kvs). all_issues (snd (snd x)) = []"
      by blast
    then have "\<forall>x \<in> set (parse_shape e sh p kvs). issues_now (snd (snd x)) = []"
      and "\<forall>x \<in> set (parse_shape e sh p kvs). issues_later (snd (snd x)) = []"
      by (simp_all add: all_issues_def)
    then show ?thesis using JObj
      by (simp add: mergeObject_def Let_def all_issues_def case_prod_beta comp_def concat_all_empty)
  qed (use 10 in \<open>auto simp: all_issues_def INVALID_def\<close>)
next
  case (11 e p kvs)
  then show ?case by simp
next
  case (12 e k s sh p kvs)
  then show ?case by simp
qed

lemma registry_shapes:
  assumes "S \<in> set object_schemas"
  shows "S = ZObject (shape S)" and "distinct (map fst (shape S))"
    and "''__proto__'' \<notin> set (map fst (shape S))" and "\<forall>ks \<in> set (shape S). flat (snd ks)"
proof -
  from assms consider "S = createUserSchema" | "S = updateUserSchema" | "S = loginSchema"
    | "S = createUserRecordSchema" | "S = paginationQuerySchema"
    by (auto simp: object_schemas_def)
  then have "S = ZObject (shape S) \<and> distinct (map fst (shape S))
    \<and> ''__proto__'' \<notin> set (map fst (shape S)) \<and> (\<forall>ks \<in> set (shape S). flat (snd ks))"
  proof cases
    case 1 then show ?thesis
      by (simp add: createUserSchema_def urlSchema_def userRoleSchema_def userLanguageSchema_def)
  next
    case 2 then show ?thesis
      by (simp add: updateUserSchema_def urlSchema_def emailSchema_def phoneNumberSchema_def
            userLevelSchema_def dateOfBirthSchema_def userGenderSchema_def userLanguageSchema_def
            timezoneSchema_def payoutMethodSchema_def)
  next
    case 3 then show ?thesis by (simp add: loginSchema_def urlSchema_def)
  next
    case 4 then show ?thesis by (simp add: createUserRecordSchema_def)
  next
    case 5 then show ?thesis by (simp add: paginationQuerySchema_def)
  qed
  then show "S = ZObject (shape S)" and "distinct (map fst (shape S))"
    and "''__proto__'' \<notin> set (map fst (shape S))" and "\<forall>ks \<in> set (shape S). flat (snd ks)"
    by simp_all
qed

subsection \<open>The schemas of the registry on an object\<close>

lemma eval_field_valid_no_issue:
  assumes "p_status (eval_field e S k v) = Valid"
  shows "issues_now (eval_field e S k v) = []" and "issues_later (eval_field e S k v) = []"
proof -
  have "all_issues (eval_field e S k v) = []"
  proof (cases "map_of (shape S) k")
    case None
    then show ?thesis by (simp add: eval_field_def OK_def all_issues_def)
  next
    case (Some s)
    with assms show ?thesis
      using parse_valid_no_issue(1)[of e s "[k]" v] by (simp add: eval_field_def)
  qed
  then show "issues_now (eval_field e S k v) = []" and "issues_later (eval_field e S k v) = []"
    by (simp_all add: all_issues_def)
qed

lemma registry_rejected_issues:
  assumes S: "S \<in> set object_schemas" and rej: "parseAsync e S (JObj kvs) = RejectedZod errors"
  shows "errors = issues_as_pushed e S kvs"
proof -
  define sh where "sh = shape S"
  from registry_shapes[OF S] have eq: "S = ZObject sh" and d: "distinct (map fst sh)"
    by (simp_all add: sh_def)
  from rej have "errors = all_issues (parse e (ZObject sh) [] (JObj kvs))"
    unfolding eq parseAsync_def Let_def by (simp split: if_splits)
  then show ?thesis unfolding eq by (simp only: object_all_issues[OF d])
qed

lemma registry_resolved_iff:
  assumes S: "S \<in> set object_schemas"
  shows "(\<exists>out. parseAsync e S (JObj kvs) = Resolved out) \<longleftrightarrow>
         (\<forall>k \<in> set (shape_keys S). p_status (eval_field e S k (get_prop kvs k)) = Valid)"
proof -
  define sh where "sh = shape S"
  from registry_shapes[OF S] have eq: "S = ZObject sh" and d: "distinct (map fst sh)"
    by (simp_all add: sh_def)
  have "(\<exists>out. parseAsync e (ZObject sh) (JObj kvs) = Resolved out) \<longleftrightarrow>
        p_status (parse e (ZObject sh) [] (JObj kvs)) = Valid"
    unfolding parseAsync_def Let_def by (simp split: if_splits)
  then show ?thesis unfolding eq by (simp only: object_valid_iff[OF d] shape_keys.simps)
qed

lemma registry_field_paths:
  assumes S: "S \<in> set object_schemas" and k: "k \<in> set (shape_keys S)"
    and i: "i \<in> set (all_issues (eval_field e S k v))"
  shows "path i = [k]"
proof -
  define sh where "sh = shape S"
  from registry_shapes[OF S] have eq: "S = ZObject sh" and d: "distinct (map fst sh)"
    and fl: "\<forall>ks \<in> set sh. flat (snd ks)"
    by (simp_all add: sh_def)
  from k obtain s where ks: "(k, s) \<in> set sh" unfolding eq by auto
  with d have "eval_field e (ZObject sh) k v = parse e s [k] v"
    using eval_field_eq[of sh "(k, s)" e v] by simp
  moreover from ks fl have "flat s" by auto
  ultimately show ?thesis using i flat_path[of s i e "[k]" v] unfolding eq by simp
qed

lemma issues_pushed_by_field:
  assumes "\<forall>k \<in> set (shape_keys S). issues_later (eval_field e S k (get_prop kvs k)) = []"
  shows "issues_as_pushed e S kvs = issues_by_field e S kvs"
proof -
  have l: "concat (map (\<lambda>k. issues_later (eval_field e S k (get_prop kvs k))) (shape_keys S)) = []"
    using assms by (simp add: concat_all_empty)
  have m: "map (\<lambda>k. all_issues (eval_field e S k (get_prop kvs k))) (shape_keys S)
               = map (\<lambda>k. issues_now (eval_field e S k (get_prop kvs k))) (shape_keys S)"
    using assms by (simp add: all_issues_def)
  show ?thesis unfolding issues_as_pushed_def issues_by_field_def l m by simp
qed

lemma details_of_validation:
  "details_of \<lparr>request_after = r, sent = Some \<lparr>status = 400, json = validation_body ds\<rparr>,
               next_called = False\<rparr> = ds"
  by (simp add: details_of_def validation_body_def get_prop_def)


lemma update_email_issue:
  assumes "\<not> is_email e m" and "length m \<le> 255"
  shows "issues_now (eval_field e updateUserSchema ''email'' (JStr m))
           = [\<lparr>code = invalid_string, path = [''email''], message = ''Invalid email format'',
               received = JUndefined\<rparr>]"
    and "issues_later (eval_field e updateUserSchema ''email'' (JStr m)) = []"
  using assms
  by (simp_all add: eval_field_def updateUserSchema_def emailSchema_def plain_issue_def)

lemma update_height_issue:
  "issues_now (eval_field e updateUserSchema ''height_cm'' (JNum 10))
           = [\<lparr>code = too_small, path = [''height_cm''],
               message = ''Height must be at least 50 cm'', received = JUndefined\<rparr>]"
  "issues_later (eval_field e updateUserSchema ''height_cm'' (JNum 10)) = []"
  by (simp_all add: eval_field_def updateUserSchema_def plain_issue_def number_checks_def
        isInteger_def)

lemma update_weight_issue:
  "issues_now (eval_field e updateUserSchema ''weight_kg'' (JNum 1000))
           = [\<lparr>code = too_big, path = [''weight_kg''],
               message = ''Weight must be at most 300 kg'', received = JUndefined\<rparr>]"
  "issues_later (eval_field e updateUserSchema ''weight_kg'' (JNum 1000)) = []"
  by (simp_all add: eval_field_def updateUserSchema_def plain_issue_def number_checks_def)

lemma update_keys:
  "shape_keys updateUserSchema =
     [''id'', ''username'', ''first_name'', ''last_name'', ''photo_url'', ''email'',
      ''phone_number'', ''level'', ''height_cm'', ''weight_kg'', ''date_of_birth'', ''gender'',
      ''experience_years'', ''goals'', ''injuries'', ''notes'', ''language'', ''timezone'',
      ''notifications_enabled'', ''bank_account_number'', ''bank_account_holder'', ''bank_name'',
      ''paypal_email'', ''payout_method'']"
  by (simp add: updateUserSchema_def)

lemma update_example:
  assumes others: "\<forall>k \<in> set (shape_keys updateUserSchema) - {''email'', ''height_cm'', ''weight_kg''}.
             p_status (eval_field e updateUserSchema k (get_prop kvs k)) = Valid"
    and h: "get_prop kvs ''height_cm'' = JNum 10" and w: "get_prop kvs ''weight_kg'' = JNum 1000"
    and m: "get_prop kvs ''email'' = JStr m" "\<not> is_email e m" "length m \<le> 255"
  shows "parseAsync e updateUserSchema (JObj kvs) =
     RejectedZod
       [\<lparr>code = invalid_string, path = [''email''], message = ''Invalid email format'',
          received = JUndefined\<rparr>,
        \<lparr>code = too_small, path = [''height_cm''], message = ''Height must be at least 50 cm'',
          received = JUndefined\<rparr>,
        \<lparr>code = too_big, path = [''weight_kg''], message = ''Weight must be at most 300 kg'',
          received = JUndefined\<rparr>]"
proof -
  have S: "updateUserSchema \<in> set object_schemas" by (simp add: object_schemas_def)
  have ok: "issues_now (eval_field e updateUserSchema k (get_prop kvs k)) = []
          \<and> issues_later (eval_field e updateUserSchema k (get_prop kvs k)) = []"
    if "k \<in> set (shape_keys updateUserSchema) - {''email'', ''height_cm'', ''weight_kg''}" for k
    using others that eval_field_valid_no_issue[of e updateUserSchema k "get_prop kvs k"] by blast
  have pushed: "issues_as_pushed e updateUserSchema kvs =
       [\<lparr>code = invalid_string, path = [''email''], message = ''Invalid email format'',
          received = JUndefined\<rparr>,
        \<lparr>code = too_small, path = [''height_cm''], message = ''Height must be at least 50 cm'',
          received = JUndefined\<rparr>,
        \<lparr>code = too_big, path = [''weight_kg''], message = ''Weight must be at most 300 kg'',
          received = JUndefined\<rparr>]"
    unfolding issues_as_pushed_def update_keys
    using ok[unfolded update_keys]
    by (simp add: h w m update_email_issue update_height_issue update_weight_issue)
  have nv: "p_status (eval_field e updateUserSchema ''height_cm'' (get_prop kvs ''height_cm'')) \<noteq> Valid"
    using eval_field_valid_no_issue(1)[of e updateUserSchema "''height_cm''" "JNum 10"]
    by (auto simp: h update_height_issue)
  have "\<not> (\<exists>out. parseAsync e updateUserSchema (JObj kvs) = Resolved out)"
    unfolding registry_resolved_iff[OF S] update_keys using nv by auto
  then obtain errors where "parseAsync e updateUserSchema (JObj kvs) = RejectedZod errors"
    using parseAsync_cases[of e updateUserSchema "JObj kvs"] by blast
  with registry_rejected_issues[OF S this] pushed show ?thesis by simp
qed

text \<open>What \<open>validate\<close> does with a rejection by a \<^verbatim>\<open>ZodError\<close>.\<close>

lemma validate_on_rejection:
  assumes rej: "schema e (get_target req target) = RejectedZod errors" and ne: "errors \<noteq> []"
  shows "validate schema target options e req =
       \<lparr>request_after = req,
        sent = Some \<lparr>status = 400,
                     json = validation_body (map detail_entry
                              (if abortEarly options = Some True then [hd errors] else errors))\<rparr>,
        next_called = False\<rparr>"
proof -
  from ne obtain x xs where xs: "errors = x # xs" by (cases errors) auto
  have one: "[first_or_undefined (map format_error errors)] = map format_error [hd errors]"
    by (simp add: xs first_or_undefined_def)
  show ?thesis
  proof (cases "abortEarly options = Some True")
    case True
    then show ?thesis
      using rej one validation_failed_eq[of "[hd errors]"]
      by (simp add: validate_def Let_def)
  next
    case False
    then have "(case abortEarly options of None \<Rightarrow> False | Some b \<Rightarrow> b) = False"
      by (cases "abortEarly options") auto
    then show ?thesis
      using rej False validation_failed_eq[of errors]
      by (simp add: validate_def Let_def)
  qed
qed

section \<open>The claims\<close>

lemma bad_update_rejected:
  "parseAsync sample_env updateUserSchema bad_update =
     RejectedZod
       [\<lparr>code = invalid_string, path = [''email''], message = ''Invalid email format'',
          received = JUndefined\<rparr>,
        \<lparr>code = too_small, path = [''height_cm''], message = ''Height must be at least 50 cm'',
          received = JUndefined\<rparr>,
        \<lparr>code = too_big, path = [''weight_kg''], message = ''Weight must be at most 300 kg'',
          received = JUndefined\<rparr>]"
  by code_simp

text \<open>
  C2. When the payload of the target violates a constraint of the schema, that is, when
  \<^verbatim>\<open>parseAsync\<close> does not resolve, it rejects with a non-empty list of issues, and
  \<open>validate\<close> leaves the request as it was, does not call \<^verbatim>\<open>next\<close>, and answers with
  status 400 and exactly the body \<open>{success: false, error: {message: "Validation
  failed", code: "VALIDATION_ERROR", details}}\<close>. Each entry of \<open>details\<close> has the path
  joined by dots, the message, and the value unless the issue is a type mismatch (or has
  none); with \<^verbatim>\<open>abortEarly\<close> there is one entry, for the first issue.
\<close>

theorem validate_rejection_is_400:
  assumes "\<forall>v. parseAsync e s (get_target req target) \<noteq> Resolved v"
  shows "\<exists>errors. errors \<noteq> [] \<and> parseAsync e s (get_target req target) = RejectedZod errors \<and>
     validate (zod s) target options e req =
       \<lparr>request_after = req,
        sent = Some \<lparr>status = 400,
                     json = validation_body (map detail_entry
                              (if abortEarly options = Some True then [hd errors] else errors))\<rparr>,
        next_called = False\<rparr>"
proof -
  from assms parseAsync_cases[of e s "get_target req target"]
  obtain errors where ne: "errors \<noteq> []"
    and rej: "parseAsync e s (get_target req target) = RejectedZod errors"
    by blast
  from rej have "zod s e (get_target req target) = RejectedZod errors"
    by (simp add: zod_def)
  from validate_on_rejection[where schema = "zod s" and e = e and options = options, OF this ne]
    ne rej show ?thesis by blast
qed

theorem validate_rejection_is_400_witness:
  "validate (zod updateUserSchema) Body default_options sample_env (empty_request\<lparr>body := bad_update\<rparr>) =
     \<lparr>request_after = empty_request\<lparr>body := bad_update\<rparr>,
      sent = Some \<lparr>status = 400,
        json = JObj [(''success'', JBool False),
           (''error'', JObj [(''message'', JStr ''Validation failed''),
              (''code'', JStr ''VALIDATION_ERROR''),
              (''details'', JArr
                 [JObj [(''field'', JStr ''email''), (''message'', JStr ''Invalid email format'')],
                  JObj [(''field'', JStr ''height_cm''),
                        (''message'', JStr ''Height must be at least 50 cm'')],
                  JObj [(''field'', JStr ''weight_kg''),
                        (''message'', JStr ''Weight must be at most 300 kg'')]])])]\<rparr>,
      next_called = False\<rparr>"
proof -
  have hyp: "\<forall>v. parseAsync sample_env updateUserSchema
                 (get_target (empty_request\<lparr>body := bad_update\<rparr>) Body) \<noteq> Resolved v"
    by (simp add: bad_update_rejected)
  show ?thesis
    using validate_rejection_is_400[OF hyp, of default_options]
    by (auto simp: bad_update_rejected default_options_def validation_body_def detail_entry_def)
qed

text \<open>
  C8 (as amended). When the evaluation of the schema ends in a fault that is not a
  \<^verbatim>\<open>ZodError\<close>, \<open>validate\<close> and \<open>validateMultiple\<close> leave the request as it was, do not call
  \<^verbatim>\<open>next\<close>, and answer with status 500 and the fixed body \<open>{success: false, error:
  {message: "Internal validation error", code: "INTERNAL_ERROR"}}\<close>. The body is the same
  for every text of the fault and every environment: no flag puts the text of the fault
  into it.
\<close>

theorem fault_is_500_fixed_body:
  "(schema e (get_target req target) = RejectedOther fault \<longrightarrow>
      validate schema target options e req =
        \<lparr>request_after = req, sent = Some \<lparr>status = 500, json = internal_body\<rparr>,
         next_called = False\<rparr>)
   \<and> (filter (\<lambda>r. \<not> is_resolved r) (map snd (started ss e req)) \<noteq> []
        \<and> filter (\<lambda>r. \<not> is_resolved r) (map snd (started ss e req))
            ! (first mod length (filter (\<lambda>r. \<not> is_resolved r) (map snd (started ss e req))))
          = RejectedOther fault \<longrightarrow>
      validateMultiple first ss e req =
        \<lparr>request_after = req, sent = Some \<lparr>status = 500, json = internal_body\<rparr>,
         next_called = False\<rparr>)"
  by (simp add: validate_def validateMultiple_def Let_def internal_validation_error_eq)

theorem fault_is_500_fixed_body_witness:
  "validate (\<lambda>e v. RejectedOther ''secret'') Query default_options
      (sample_env\<lparr>node_env := Some ''development''\<rparr>) empty_request =
     \<lparr>request_after = empty_request,
      sent = Some \<lparr>status = 500,
        json = JObj [(''success'', JBool False),
           (''error'', JObj [(''message'', JStr ''Internal validation error''),
                             (''code'', JStr ''INTERNAL_ERROR'')])]\<rparr>,
      next_called = False\<rparr>
   \<and> validateMultiple 0
      \<lparr>body_schema = Some (\<lambda>e v. RejectedOther ''secret''), params_schema = None,
       query_schema = None\<rparr>
      (sample_env\<lparr>node_env := Some ''development''\<rparr>) empty_request =
     \<lparr>request_after = empty_request,
      sent = Some \<lparr>status = 500,
        json = JObj [(''success'', JBool False),
           (''error'', JObj [(''message'', JStr ''Internal validation error''),
                             (''code'', JStr ''INTERNAL_ERROR'')])]\<rparr>,
      next_called = False\<rparr>"
  using fault_is_500_fixed_body[of "\<lambda>e v. RejectedOther ''secret''"
      "sample_env\<lparr>node_env := Some ''development''\<rparr>" empty_request Query "''secret''"
      default_options
      "\<lparr>body_schema = Some (\<lambda>e v. RejectedOther ''secret''), params_schema = None,
        query_schema = None\<rparr>" 0]
  by (simp add: internal_body_def started_def)

text \<open>
  The claim as stated has the text of the fault kept out by a flag of the run time. In the
  verbose configuration (\<^verbatim>\<open>NODE_ENV=development\<close>) the answer to a fault with the text
  \<open>secret\<close> is the same as in production, and the text is not in it.
\<close>

theorem fault_text_flag_counterexample:
  "validate (\<lambda>e v. RejectedOther ''secret'') Body default_options
      (sample_env\<lparr>node_env := Some ''development''\<rparr>) empty_request
   = validate (\<lambda>e v. RejectedOther ''secret'') Body default_options
      (sample_env\<lparr>node_env := Some ''production''\<rparr>) empty_request
   \<and> sent (validate (\<lambda>e v. RejectedOther ''secret'') Body default_options
      (sample_env\<lparr>node_env := Some ''development''\<rparr>) empty_request)
     = Some \<lparr>status = 500,
        json = JObj [(''success'', JBool False),
           (''error'', JObj [(''message'', JStr ''Internal validation error''),
                             (''code'', JStr ''INTERNAL_ERROR'')])]\<rparr>"
  by (simp add: validate_def Let_def internal_validation_error_def)

lemma registry_resolved_keys:
  assumes S: "S \<in> set object_schemas" and res: "parseAsync e S v = Resolved out"
  shows "\<exists>okvs. out = JObj okvs \<and> set (map fst okvs) \<subseteq> set (shape_keys S)"
proof -
  define sh where "sh = shape S"
  from registry_shapes[OF S] have eq: "S = ZObject sh"
    and d: "distinct (map fst sh)" and np: "''__proto__'' \<notin> set (map fst sh)"
    by (simp_all add: sh_def)
  from res have v: "p_status (parse e (ZObject sh) [] v) = Valid"
    and o: "out = p_value (parse e (ZObject sh) [] v)"
    unfolding eq by (auto simp: parseAsync_def Let_def split: if_splits)
  obtain kvs where kvs: "v = JObj kvs"
    using v by (cases v) (simp_all add: INVALID_def)
  have v': "p_status (parse e (ZObject sh) [] (JObj kvs)) = Valid"
    using v kvs by simp
  have "out = JObj (map (\<lambda>k. (k, p_value (eval_field e (ZObject sh) k (get_prop kvs k))))
            (filter (\<lambda>k. p_value (eval_field e (ZObject sh) k (get_prop kvs k)) \<noteq> JUndefined
                          \<or> has_key kvs k) (map fst sh)))"
    unfolding o kvs by (rule object_valid_value[OF d np v'])
  then show ?thesis unfolding eq
    by (force simp: comp_def)
qed

text \<open>
  C9. For every object schema of the registry, a successful evaluation gives an object
  whose keys are all declared by the schema: a key of the input that the schema does not
  declare is absent from the normalized output. The option \<^verbatim>\<open>stripUnknown\<close> of \<open>validate\<close>
  has no effect: whatever its value, the middleware does the same.
\<close>

theorem unknown_keys_always_stripped:
  "(S \<in> set object_schemas \<and> parseAsync e S v = Resolved out \<longrightarrow>
      (\<exists>okvs. out = JObj okvs \<and> set (map fst okvs) \<subseteq> set (shape_keys S)
         \<and> (\<forall>k. k \<notin> set (shape_keys S) \<longrightarrow> \<not> has_key okvs k)))
   \<and> validate schema target (options\<lparr>stripUnknown := b\<rparr>) e' req
       = validate schema target options e' req"
proof (intro conjI impI)
  assume a: "S \<in> set object_schemas \<and> parseAsync e S v = Resolved out"
  then obtain okvs where "out = JObj okvs" "set (map fst okvs) \<subseteq> set (shape_keys S)"
    using registry_resolved_keys by blast
  then show "\<exists>okvs. out = JObj okvs \<and> set (map fst okvs) \<subseteq> set (shape_keys S)
         \<and> (\<forall>k. k \<notin> set (shape_keys S) \<longrightarrow> \<not> has_key okvs k)"
    by (auto simp: has_key_def)
next
  show "validate schema target (options\<lparr>stripUnknown := b\<rparr>) e' req
       = validate schema target options e' req"
    by (simp add: validate_def)
qed

lemma mixed_body_resolved:
  "parseAsync sample_env updateUserSchema (body mixed_request)
     = Resolved (JObj [(''id'', JNum 7), (''first_name'', JStr ''Olha'')])"
  by code_simp


theorem unknown_keys_always_stripped_witness:
  "updateUserSchema \<in> set object_schemas
   \<and> parseAsync sample_env updateUserSchema
        (JObj [(''id'', JNum 7), (''first_name'', JStr ''  Olha ''), (''extra'', JBool True)])
      = Resolved (JObj [(''id'', JNum 7), (''first_name'', JStr ''Olha'')])
   \<and> \<not> has_key [(''id'', JNum 7), (''first_name'', JStr ''Olha'')] ''extra''
   \<and> validate (zod updateUserSchema) Body (default_options\<lparr>stripUnknown := Some False\<rparr>)
        sample_env mixed_request
      = validate (zod updateUserSchema) Body default_options sample_env mixed_request"
  using unknown_keys_always_stripped[where S = updateUserSchema and e = sample_env
      and v = "body mixed_request"
      and out = "JObj [(''id'', JNum 7), (''first_name'', JStr ''Olha'')]"
      and schema = "zod updateUserSchema" and target = Body and options = default_options
      and b = "Some False" and e' = sample_env and req = mixed_request]
    mixed_body_resolved
  by (simp add: object_schemas_def mixed_request_def has_key_def)

lemma eval_field_valid_iff_no_issue:
  "p_status (eval_field e S k v) = Valid \<longleftrightarrow> all_issues (eval_field e S k v) = []"
proof (cases "map_of (shape S) k")
  case None
  then show ?thesis by (simp add: eval_field_def OK_def all_issues_def)
next
  case (Some s)
  then show ?thesis
    using parse_valid_no_issue(1)[of e s "[k]" v] parse_invalid_has_issue(1)[of e s "[k]" v]
    by (auto simp: eval_field_def)
qed

lemma set_issues_as_pushed:
  "set (issues_as_pushed e S kvs)
     = (\<Union>k \<in> set (shape_keys S). set (all_issues (eval_field e S k (get_prop kvs k))))"
  by (auto simp: issues_as_pushed_def all_issues_def)

lemma registry_issue_at_field:
  assumes S: "S \<in> set object_schemas" and k: "k \<in> set (shape_keys S)"
  shows "(\<exists>i \<in> set (issues_as_pushed e S kvs). path i = [k])
           \<longleftrightarrow> p_status (eval_field e S k (get_prop kvs k)) \<noteq> Valid"
proof
  assume "\<exists>i \<in> set (issues_as_pushed e S kvs). path i = [k]"
  then obtain i k' where i: "path i = [k]" and k': "k' \<in> set (shape_keys S)"
    and m: "i \<in> set (all_issues (eval_field e S k' (get_prop kvs k')))"
    unfolding set_issues_as_pushed by blast
  from registry_field_paths[OF S k' m] i have "k' = k" by simp
  with m show "p_status (eval_field e S k (get_prop kvs k)) \<noteq> Valid"
    by (auto simp: eval_field_valid_iff_no_issue)
next
  assume "p_status (eval_field e S k (get_prop kvs k)) \<noteq> Valid"
  then obtain i where m: "i \<in> set (all_issues (eval_field e S k (get_prop kvs k)))"
    by (cases "all_issues (eval_field e S k (get_prop kvs k))")
       (auto simp: eval_field_valid_iff_no_issue)
  from registry_field_paths[OF S k m] k m
  show "\<exists>i \<in> set (issues_as_pushed e S kvs). path i = [k]"
    unfolding set_issues_as_pushed by blast
qed

lemma ball_split_key:
  "k0 \<in> A \<Longrightarrow> (\<forall>k \<in> A. P k) \<longleftrightarrow> P k0 \<and> (\<forall>k \<in> A - {k0}. P k)"
  by auto

lemma login_keys:
  "shape_keys loginSchema =
     [''id'', ''first_name'', ''username'', ''last_name'', ''photo_url'', ''auth_date'', ''hash'']"
  by (simp add: loginSchema_def)

lemma auth_date_valid_iff:
  assumes "0 < t"
  shows "p_status (eval_field e loginSchema ''auth_date'' (JNum (of_int t))) = Valid
           \<longleftrightarrow> now_ms e div 1000 - 300 \<le> t \<and> t \<le> now_ms e div 1000 + 60"
  using assms
  by (simp add: eval_field_def loginSchema_def number_checks_def isInteger_def
        auth_date_in_window_def Let_def plain_issue_def del: of_int_add of_int_diff)

text \<open>
  C5. For a login whose \<open>auth_date\<close> is a positive integer \<open>t\<close>, with \<open>now\<close> the clock in whole
  seconds (\<open>now_ms div 1000\<close>): the field \<open>auth_date\<close> is valid exactly when
  \<open>now - 300 \<le> t \<le> now + 60\<close>; the login resolves exactly when this holds and the other
  fields are valid; and a rejection lists an issue at \<open>auth_date\<close> exactly when it does
  not hold.
\<close>

theorem auth_date_window:
  "(0 < t \<longrightarrow>
      (p_status (eval_field e loginSchema ''auth_date'' (JNum (of_int t))) = Valid
         \<longleftrightarrow> now_ms e div 1000 - 300 \<le> t \<and> t \<le> now_ms e div 1000 + 60))
   \<and> (0 < t \<and> get_prop kvs ''auth_date'' = JNum (of_int t) \<longrightarrow>
        ((\<exists>out. parseAsync e loginSchema (JObj kvs) = Resolved out)
           \<longleftrightarrow> (now_ms e div 1000 - 300 \<le> t \<and> t \<le> now_ms e div 1000 + 60)
               \<and> (\<forall>k \<in> set (shape_keys loginSchema) - {''auth_date''}.
                     p_status (eval_field e loginSchema k (get_prop kvs k)) = Valid)))
   \<and> (0 < t \<and> get_prop kvs ''auth_date'' = JNum (of_int t)
        \<and> parseAsync e loginSchema (JObj kvs) = RejectedZod errors \<longrightarrow>
        ((\<exists>i \<in> set errors. path i = [''auth_date''])
           \<longleftrightarrow> \<not> (now_ms e div 1000 - 300 \<le> t \<and> t \<le> now_ms e div 1000 + 60)))"
proof (intro conjI impI)
  assume "0 < t"
  then show "p_status (eval_field e loginSchema ''auth_date'' (JNum (of_int t))) = Valid
         \<longleftrightarrow> now_ms e div 1000 - 300 \<le> t \<and> t \<le> now_ms e div 1000 + 60"
    by (rule auth_date_valid_iff)
next
  have S: "loginSchema \<in> set object_schemas" by (simp add: object_schemas_def)
  assume a: "0 < t \<and> get_prop kvs ''auth_date'' = JNum (of_int t)"
  then have v: "p_status (eval_field e loginSchema ''auth_date'' (get_prop kvs ''auth_date'')) = Valid
         \<longleftrightarrow> now_ms e div 1000 - 300 \<le> t \<and> t \<le> now_ms e div 1000 + 60"
    using auth_date_valid_iff[of t e] by simp
  have "(\<forall>k \<in> set (shape_keys loginSchema). p_status (eval_field e loginSchema k (get_prop kvs k)) = Valid)
     \<longleftrightarrow> p_status (eval_field e loginSchema ''auth_date'' (get_prop kvs ''auth_date'')) = Valid
         \<and> (\<forall>k \<in> set (shape_keys loginSchema) - {''auth_date''}.
                     p_status (eval_field e loginSchema k (get_prop kvs k)) = Valid)"
    by (rule ball_split_key) (simp add: login_keys)
  then show "(\<exists>out. parseAsync e loginSchema (JObj kvs) = Resolved out)
           \<longleftrightarrow> (now_ms e div 1000 - 300 \<le> t \<and> t \<le> now_ms e div 1000 + 60)
               \<and> (\<forall>k \<in> set (shape_keys loginSchema) - {''auth_date''}.
                     p_status (eval_field e loginSchema k (get_prop kvs k)) = Valid)"
    unfolding registry_resolved_iff[OF S] v by simp
next
  have S: "loginSchema \<in> set object_schemas" by (simp add: object_schemas_def)
  have k: "''auth_date'' \<in> set (shape_keys loginSchema)" by (simp add: login_keys)
  assume a: "0 < t \<and> get_prop kvs ''auth_date'' = JNum (of_int t)
        \<and> parseAsync e loginSchema (JObj kvs) = RejectedZod errors"
  then have "errors = issues_as_pushed e loginSchema kvs"
    using registry_rejected_issues[OF S] by blast
  then show "(\<exists>i \<in> set errors. path i = [''auth_date''])
           \<longleftrightarrow> \<not> (now_ms e div 1000 - 300 \<le> t \<and> t \<le> now_ms e div 1000 + 60)"
    using registry_issue_at_field[OF S k, of e kvs] a auth_date_valid_iff[of t e] by simp
qed

lemma fresh_login_others_valid:
  "\<forall>k \<in> set (shape_keys loginSchema) - {''auth_date''}.
      p_status (eval_field sample_env loginSchema k (get_prop fresh_login_fields k)) = Valid"
  unfolding login_keys by code_simp

lemma stale_login_rejected:
  "parseAsync sample_env loginSchema (JObj stale_login_fields) =
     RejectedZod
       [\<lparr>code = invalid_string, path = [''hash''],
          message = ''Hash must be a valid SHA-256 hex string'', received = JUndefined\<rparr>,
        \<lparr>code = custom, path = [''auth_date''],
          message = ''Authentication date is invalid or expired'', received = JUndefined\<rparr>]"
  by code_simp

theorem auth_date_window_witness:
  "p_status (eval_field sample_env loginSchema ''auth_date'' (JNum 1699999700)) = Valid
   \<and> p_status (eval_field sample_env loginSchema ''auth_date'' (JNum 1699999699)) \<noteq> Valid
   \<and> p_status (eval_field sample_env loginSchema ''auth_date'' (JNum 1700000060)) = Valid
   \<and> p_status (eval_field sample_env loginSchema ''auth_date'' (JNum 1700000061)) \<noteq> Valid
   \<and> (\<exists>out. parseAsync sample_env loginSchema (JObj fresh_login_fields) = Resolved out)
   \<and> (\<exists>i \<in> set [\<lparr>code = invalid_string, path = [''hash''],
          message = ''Hash must be a valid SHA-256 hex string'', received = JUndefined\<rparr>,
        \<lparr>code = custom, path = [''auth_date''],
          message = ''Authentication date is invalid or expired'', received = JUndefined\<rparr>].
        path i = [''auth_date''])"
proof -
  have now: "now_ms sample_env div 1000 = 1700000000" by (simp add: sample_env_def)
  have g: "get_prop fresh_login_fields ''auth_date'' = JNum (of_int 1699999700)"
    "get_prop stale_login_fields ''auth_date'' = JNum (of_int 1699999000)"
    by (simp_all add: get_prop_def fresh_login_fields_def stale_login_fields_def)
  from auth_date_window[of 1699999700 sample_env fresh_login_fields] now
       fresh_login_others_valid g(1)
  have 1: "p_status (eval_field sample_env loginSchema ''auth_date'' (JNum 1699999700)) = Valid"
    and 5: "\<exists>out. parseAsync sample_env loginSchema (JObj fresh_login_fields) = Resolved out"
    by simp_all
  from auth_date_window[of 1699999699 sample_env] now
  have 2: "p_status (eval_field sample_env loginSchema ''auth_date'' (JNum 1699999699)) \<noteq> Valid"
    by simp
  from auth_date_window[of 1700000060 sample_env] now
  have 3: "p_status (eval_field sample_env loginSchema ''auth_date'' (JNum 1700000060)) = Valid"
    by simp
  from auth_date_window[of 1700000061 sample_env] now
  have 4: "p_status (eval_field sample_env loginSchema ''auth_date'' (JNum 1700000061)) \<noteq> Valid"
    by simp
  from auth_date_window[of 1699999000 sample_env stale_login_fields] now g(2)
       stale_login_rejected
  have 6: "\<exists>i \<in> set [\<lparr>code = invalid_string, path = [''hash''],
          message = ''Hash must be a valid SHA-256 hex string'', received = JUndefined\<rparr>,
        \<lparr>code = custom, path = [''auth_date''],
          message = ''Authentication date is invalid or expired'', received = JUndefined\<rparr>].
        path i = [''auth_date'']"
    by simp
  from 1 2 3 4 5 6 show ?thesis by blast
qed

subsection \<open>parseInt and the Number value of an integer\<close>

lemma double_of_int_exact: "\<bar>n\<bar> \<le> 9007199254740992 \<Longrightarrow> double_of_int n = JNum (of_int n)"
  by (simp add: double_of_int_def)

lemma bit_length_bound: "0 < a \<Longrightarrow> 2 ^ (bit_length a - 1) \<le> a"
proof (induction a rule: bit_length.induct)
  case (1 n)
  show ?case
  proof (cases "n div 2 \<le> 0")
    case True
    with 1(2) have "n div 2 = 0" by (simp add: pos_imp_zdiv_nonneg_iff order_antisym)
    with 1(2) show ?thesis by (simp add: bit_length.simps[of n] bit_length.simps[of 0])
  next
    case False
    then have pos: "0 < n div 2" by simp
    with 1 have ih: "2 ^ (bit_length (n div 2) - 1) \<le> n div 2" by simp
    have bl: "bit_length (n div 2) \<ge> 1" using pos by (simp add: bit_length.simps[of "n div 2"])
    have "bit_length n - 1 = Suc (bit_length (n div 2) - 1)"
      using 1(2) bl by (simp add: bit_length.simps[of n])
    then have "(2::int) ^ (bit_length n - 1) = 2 * 2 ^ (bit_length (n div 2) - 1)" by simp
    also have "\<dots> \<le> 2 * (n div 2)" using ih by simp
    also have "\<dots> \<le> n" by simp
    finally show ?thesis .
  qed
qed

lemma round_half_even_pos:
  assumes "0 < a" and "2 ^ k \<le> a"
  shows "0 < round_half_even a k"
proof -
  have "(2::int) ^ k div 2 ^ k \<le> a div 2 ^ k"
    using assms(2) by (intro zdiv_mono1) simp_all
  then have "1 \<le> a div 2 ^ k" by simp
  then show ?thesis
    by (auto simp: round_half_even_def Let_def intro!: mult_pos_pos)
qed

lemma double_of_int_positive:
  assumes "0 < n"
  shows "(\<exists>r. double_of_int n = JNum r \<and> 0 < r) \<or> double_of_int n = JInf True"
proof (cases "\<bar>n\<bar> \<le> 9007199254740992")
  case True
  with assms show ?thesis by (simp add: double_of_int_def)
next
  case False
  have k: "(2::int) ^ (bit_length \<bar>n\<bar> - 53) \<le> 2 ^ (bit_length \<bar>n\<bar> - 1)"
    by (rule power_increasing) auto
  have "0 < \<bar>n\<bar>" using assms by simp
  from bit_length_bound[OF this] k have "2 ^ (bit_length \<bar>n\<bar> - 53) \<le> \<bar>n\<bar>" by linarith
  from round_half_even_pos[OF \<open>0 < \<bar>n\<bar>\<close> this]
  show ?thesis using False assms by (simp add: double_of_int_def Let_def)
qed

lemma page_ok_positive: "0 < n \<Longrightarrow> page_ok e (double_of_int n)"
  using double_of_int_positive[of n] by (auto simp: page_ok_def)

lemma digit_not_space: "is_digit c \<Longrightarrow> \<not> is_space c"
  by (auto simp: is_digit_def is_space_def)

lemma digit_not_sign: "is_digit c \<Longrightarrow> c \<noteq> CHR ''-'' \<and> c \<noteq> CHR ''+''"
  by (auto simp: is_digit_def)

lemma takeWhile_prefix:
  "list_all P xs \<Longrightarrow> ys = [] \<or> \<not> P (hd ys) \<Longrightarrow> takeWhile P (xs @ ys) = xs"
  by (induction xs) (cases ys; auto)+

lemma parseInt_prefix:
  assumes "ds \<noteq> []" and "list_all is_digit ds" and "rest = [] \<or> \<not> is_digit (hd rest)"
  shows "parseInt (ds @ rest) = double_of_int (digits_val ds)"
proof -
  from assms(1) obtain d ds' where ds: "ds = d # ds'" by (cases ds) auto
  with assms(2) have d: "is_digit d" by simp
  have 1: "dropWhile is_space (ds @ rest) = ds @ rest"
    using d digit_not_space by (simp add: ds)
  have 2: "takeWhile is_digit (ds @ rest) = ds"
    by (rule takeWhile_prefix[OF assms(2,3)])
  show ?thesis
    unfolding parseInt_def 1 Let_def
    using d digit_not_sign[OF d] 2 assms(1) by (simp add: ds)
qed

lemma parseInt_examples:
  "parseInt ''10'' = JNum 10" "parseInt ''1'' = JNum 1" "parseInt ''100'' = JNum 100"
  "parseInt ''101'' = JNum 101" "parseInt ''0'' = JNum 0" "parseInt ''abc'' = JNaN"
  "parseInt ''10.5'' = JNum 10" "parseInt ''2abc'' = JNum 2"
  by code_simp+

subsection \<open>The fields of the pagination query\<close>

lemma pagination_keys:
  "shape_keys paginationQuerySchema = [''page'', ''limit'', ''sortBy'', ''order'']"
  by (simp add: paginationQuerySchema_def)

lemma map_of_map_filter_key:
  "map_of (map (\<lambda>k. (k, f k)) (filter P ks)) k
     = (if k \<in> set ks \<and> P k then Some (f k) else None)"
  by (induction ks) auto

lemma registry_resolved_value:
  assumes S: "S \<in> set object_schemas" and res: "parseAsync e S (JObj kvs) = Resolved out"
  shows "out = JObj (map (\<lambda>k. (k, p_value (eval_field e S k (get_prop kvs k))))
            (filter (\<lambda>k. p_value (eval_field e S k (get_prop kvs k)) \<noteq> JUndefined
                          \<or> has_key kvs k) (shape_keys S)))"
proof -
  define sh where "sh = shape S"
  from registry_shapes[OF S] have eq: "S = ZObject sh"
    and d: "distinct (map fst sh)" and np: "''__proto__'' \<notin> set (map fst sh)"
    by (simp_all add: sh_def)
  from res have v: "p_status (parse e (ZObject sh) [] (JObj kvs)) = Valid"
    and o: "out = p_value (parse e (ZObject sh) [] (JObj kvs))"
    unfolding eq by (auto simp: parseAsync_def Let_def split: if_splits)
  show ?thesis unfolding o eq shape_keys.simps by (rule object_valid_value[OF d np v])
qed

lemma registry_resolved_field:
  assumes S: "S \<in> set object_schemas" and res: "parseAsync e S (JObj kvs) = Resolved out"
    and k: "k \<in> set (shape_keys S)"
  shows "\<exists>okvs. out = JObj okvs \<and> get_prop okvs k = p_value (eval_field e S k (get_prop kvs k))"
  unfolding registry_resolved_value[OF S res]
  using k by (simp add: get_prop_def map_of_map_filter_key)

lemma limit_field:
  "eval_field e paginationQuerySchema ''limit'' v =
     (if v = JUndefined \<or> (\<exists>s. v = JStr s)
      then (let n = parseInt (case v of JStr s \<Rightarrow> s | _ \<Rightarrow> ''10'')
            in if limit_ok e n then OK n
               else \<lparr>p_status = Dirty, p_value = n, issues_now = [],
                      issues_later = [\<lparr>code = custom, path = [''limit''],
                         message = ''Limit must be between 1 and 100'', received = JUndefined\<rparr>]\<rparr>)
      else INVALID [type_issue no_params [''limit''] v ''string''])"
  by (cases v)
     (auto simp: eval_field_def paginationQuerySchema_def Let_def OK_def INVALID_def
        parse_int_transform_def plain_issue_def)

lemma page_field:
  "eval_field e paginationQuerySchema ''page'' v =
     (if v = JUndefined \<or> (\<exists>s. v = JStr s)
      then (let n = parseInt (case v of JStr s \<Rightarrow> s | _ \<Rightarrow> ''1'')
            in if page_ok e n then OK n
               else \<lparr>p_status = Dirty, p_value = n, issues_now = [],
                      issues_later = [\<lparr>code = custom, path = [''page''],
                         message = ''Page must be a positive number'', received = JUndefined\<rparr>]\<rparr>)
      else INVALID [type_issue no_params [''page''] v ''string''])"
  by (cases v)
     (auto simp: eval_field_def paginationQuerySchema_def Let_def OK_def INVALID_def
        parse_int_transform_def plain_issue_def)

lemma order_field:
  "eval_field e paginationQuerySchema ''order'' v =
     (if v = JUndefined then OK (JStr ''asc'')
      else if v = JStr ''asc'' \<or> v = JStr ''desc'' then OK v
      else enum_parse [''asc'', ''desc''] None [''order''] v)"
  by (cases v) (auto simp: eval_field_def paginationQuerySchema_def enum_parse_def)

lemma order_valid_iff:
  "p_status (eval_field e paginationQuerySchema ''order'' v) = Valid
     \<longleftrightarrow> v = JUndefined \<or> v = JStr ''asc'' \<or> v = JStr ''desc''"
  by (cases v) (auto simp: order_field enum_parse_def OK_def INVALID_def)

text \<open>
  C10 (as amended). \<^verbatim>\<open>parseInt\<close> reads the leading run of decimal digits of a string,
  ignores what follows it, and gives the JavaScript number nearest to the integer read.
  The field \<open>limit\<close> accepts every string whose digit prefix is an integer from 1 to 100
  and normalizes to that integer; the field \<open>page\<close> accepts every string whose digit
  prefix is a positive integer and normalizes to the number nearest to it, which is the
  integer itself up to \<open>2^53\<close>. A resolved query carries what \<^verbatim>\<open>parseInt\<close> gives for
  both. So \<open>limit = "10.5"\<close> and \<open>page = "2abc"\<close> are accepted and normalize to 10 and 2.
\<close>

theorem pagination_normalizes_numeric_prefix:
  "(ds \<noteq> [] \<and> list_all is_digit ds \<and> (rest = [] \<or> \<not> is_digit (hd rest)) \<longrightarrow>
      parseInt (ds @ rest) = double_of_int (digits_val ds)
      \<and> (0 < digits_val ds \<and> digits_val ds \<le> 100 \<longrightarrow>
            eval_field e paginationQuerySchema ''limit'' (JStr (ds @ rest))
              = OK (JNum (of_int (digits_val ds))))
      \<and> (0 < digits_val ds \<longrightarrow>
            eval_field e paginationQuerySchema ''page'' (JStr (ds @ rest))
              = OK (double_of_int (digits_val ds)))
      \<and> (0 < digits_val ds \<and> digits_val ds \<le> 9007199254740992 \<longrightarrow>
            eval_field e paginationQuerySchema ''page'' (JStr (ds @ rest))
              = OK (JNum (of_int (digits_val ds)))))
   \<and> (parseAsync e paginationQuerySchema (JObj kvs) = Resolved out
        \<and> get_prop kvs ''limit'' = JStr sl \<and> get_prop kvs ''page'' = JStr sp \<longrightarrow>
        (\<exists>okvs. out = JObj okvs \<and> get_prop okvs ''limit'' = parseInt sl
           \<and> get_prop okvs ''page'' = parseInt sp))
   \<and> eval_field e paginationQuerySchema ''limit'' (JStr ''10.5'') = OK (JNum 10)
   \<and> eval_field e paginationQuerySchema ''page'' (JStr ''2abc'') = OK (JNum 2)"
proof (intro conjI impI)
  assume a: "ds \<noteq> [] \<and> list_all is_digit ds \<and> (rest = [] \<or> \<not> is_digit (hd rest))"
  then show p: "parseInt (ds @ rest) = double_of_int (digits_val ds)"
    using parseInt_prefix by blast
  show "eval_field e paginationQuerySchema ''limit'' (JStr (ds @ rest))
              = OK (JNum (of_int (digits_val ds)))"
    if "0 < digits_val ds \<and> digits_val ds \<le> 100"
    using that by (simp add: limit_field p double_of_int_exact limit_ok_def)
  show "eval_field e paginationQuerySchema ''page'' (JStr (ds @ rest))
              = OK (double_of_int (digits_val ds))"
    if "0 < digits_val ds"
    using that by (simp add: page_field p page_ok_positive)
  show "eval_field e paginationQuerySchema ''page'' (JStr (ds @ rest))
              = OK (JNum (of_int (digits_val ds)))"
    if "0 < digits_val ds \<and> digits_val ds \<le> 9007199254740992"
    using that by (simp add: page_field p double_of_int_exact page_ok_def)
next
  have S: "paginationQuerySchema \<in> set object_schemas" by (simp add: object_schemas_def)
  assume a: "parseAsync e paginationQuerySchema (JObj kvs) = Resolved out
        \<and> get_prop kvs ''limit'' = JStr sl \<and> get_prop kvs ''page'' = JStr sp"
  then have res: "parseAsync e paginationQuerySchema (JObj kvs) = Resolved out"
    and gl: "get_prop kvs ''limit'' = JStr sl" and gp: "get_prop kvs ''page'' = JStr sp"
    by simp_all
  have el: "p_value (eval_field e paginationQuerySchema ''limit'' (JStr sl)) = parseInt sl"
    by (simp add: limit_field Let_def OK_def)
  have ep: "p_value (eval_field e paginationQuerySchema ''page'' (JStr sp)) = parseInt sp"
    by (simp add: page_field Let_def OK_def)
  from registry_resolved_field[OF S res, of "''limit''"]
  obtain okvs where o: "out = JObj okvs"
    and ol: "get_prop okvs ''limit''
               = p_value (eval_field e paginationQuerySchema ''limit'' (get_prop kvs ''limit''))"
    by (auto simp: pagination_keys)
  from registry_resolved_field[OF S res, of "''page''"] o
  have op: "get_prop okvs ''page''
               = p_value (eval_field e paginationQuerySchema ''page'' (get_prop kvs ''page''))"
    by (auto simp: pagination_keys)
  from o ol op gl gp el ep
  show "\<exists>okvs. out = JObj okvs \<and> get_prop okvs ''limit'' = parseInt sl
           \<and> get_prop okvs ''page'' = parseInt sp"
    by simp
next
  show "eval_field e paginationQuerySchema ''limit'' (JStr ''10.5'') = OK (JNum 10)"
    by (simp add: limit_field parseInt_examples limit_ok_def)
next
  show "eval_field e paginationQuerySchema ''page'' (JStr ''2abc'') = OK (JNum 2)"
    by (simp add: page_field parseInt_examples page_ok_def)
qed

lemma prefix_query_resolved:
  "parseAsync sample_env paginationQuerySchema
      (JObj [(''limit'', JStr ''10.5''), (''page'', JStr ''2abc'')])
     = Resolved (JObj [(''page'', JNum 2), (''limit'', JNum 10), (''order'', JStr ''asc'')])"
  by code_simp

theorem pagination_normalizes_numeric_prefix_witness:
  "parseInt (''10'' @ ''.5'') = JNum 10
   \<and> eval_field sample_env paginationQuerySchema ''limit'' (JStr (''10'' @ ''.5'')) = OK (JNum 10)
   \<and> eval_field sample_env paginationQuerySchema ''page'' (JStr (''10'' @ ''.5'')) = OK (JNum 10)
   \<and> (\<exists>okvs. JObj [(''page'', JNum 2), (''limit'', JNum 10), (''order'', JStr ''asc'')] = JObj okvs
         \<and> get_prop okvs ''limit'' = JNum 10 \<and> get_prop okvs ''page'' = JNum 2)"
proof -
  note inst = pagination_normalizes_numeric_prefix[where ds = "''10''" and rest = "''.5''"
      and e = sample_env and kvs = "[(''limit'', JStr ''10.5''), (''page'', JStr ''2abc'')]"
      and out = "JObj [(''page'', JNum 2), (''limit'', JNum 10), (''order'', JStr ''asc'')]"
      and sl = "''10.5''" and sp = "''2abc''"]
  have dv: "digits_val ''10'' = 10" by code_simp
  have dg: "''10'' \<noteq> [] \<and> list_all is_digit ''10'' \<and> (''.5'' = [] \<or> \<not> is_digit (hd ''.5''))"
    by (simp add: is_digit_def)
  have dbl: "double_of_int 10 = JNum 10" by (simp add: double_of_int_def)
  note first = inst[THEN conjunct1, THEN mp, OF dg, unfolded dv dbl]
  from first have 1: "parseInt (''10'' @ ''.5'') = JNum 10"
    by simp
  from first
  have 2: "eval_field sample_env paginationQuerySchema ''limit'' (JStr (''10'' @ ''.5'')) = OK (JNum 10)"
    and 3: "eval_field sample_env paginationQuerySchema ''page'' (JStr (''10'' @ ''.5'')) = OK (JNum 10)"
    by simp_all
  from inst prefix_query_resolved
  have 4: "\<exists>okvs. JObj [(''page'', JNum 2), (''limit'', JNum 10), (''order'', JStr ''asc'')] = JObj okvs
         \<and> get_prop okvs ''limit'' = JNum 10 \<and> get_prop okvs ''page'' = JNum 2"
    by (simp add: get_prop_def parseInt_examples)
  from 1 2 3 4 show ?thesis by blast
qed

text \<open>
  The claim as stated has the normalized value equal to the value of the digit prefix. For
  \<open>page = "9007199254740993"\<close> the query is accepted and \<open>page\<close> is normalized to
  9007199254740992, the nearest number that JavaScript has.
\<close>

theorem page_beyond_2_53_counterexample:
  "parseAsync sample_env paginationQuerySchema (JObj [(''page'', JStr ''9007199254740993'')])
     = Resolved (JObj [(''page'', JNum 9007199254740992), (''limit'', JNum 10),
                       (''order'', JStr ''asc'')])
   \<and> digits_val ''9007199254740993'' = 9007199254740993"
  by code_simp

text \<open>
  C6 (as amended). In the pagination query: an absent \<open>page\<close> becomes 1 and an absent
  \<open>limit\<close> becomes 10; \<open>limit = "100"\<close> is valid and becomes the integer 100;
  \<open>limit = "101"\<close>, \<open>limit = "0"\<close> and \<open>limit = "abc"\<close> are all rejected with the same
  single issue of the refinement (code \<open>custom\<close>, message "Limit must be between 1 and
  100"), so \<open>"abc"\<close> is not reported as a type violation; an absent \<open>order\<close> becomes
  \<open>asc\<close>, and \<open>order\<close> is valid only when absent, \<open>asc\<close> or \<open>desc\<close>. A query resolves
  exactly when its four fields are valid, and then carries the values of \<open>page\<close>,
  \<open>limit\<close> and \<open>order\<close>.
\<close>

theorem pagination_defaults_and_bounds:
  "eval_field e paginationQuerySchema ''page'' JUndefined = OK (JNum 1)
   \<and> eval_field e paginationQuerySchema ''limit'' JUndefined = OK (JNum 10)
   \<and> eval_field e paginationQuerySchema ''limit'' (JStr ''100'') = OK (JNum 100)
   \<and> (\<forall>s \<in> {''101'', ''0'', ''abc''}.
         p_status (eval_field e paginationQuerySchema ''limit'' (JStr s)) = Dirty
         \<and> all_issues (eval_field e paginationQuerySchema ''limit'' (JStr s))
             = [\<lparr>code = custom, path = [''limit''],
                 message = ''Limit must be between 1 and 100'', received = JUndefined\<rparr>])
   \<and> eval_field e paginationQuerySchema ''order'' JUndefined = OK (JStr ''asc'')
   \<and> (p_status (eval_field e paginationQuerySchema ''order'' v) = Valid
         \<longleftrightarrow> v = JUndefined \<or> v = JStr ''asc'' \<or> v = JStr ''desc'')
   \<and> ((\<exists>out. parseAsync e paginationQuerySchema (JObj kvs) = Resolved out)
         \<longleftrightarrow> (\<forall>k \<in> set [''page'', ''limit'', ''sortBy'', ''order''].
                p_status (eval_field e paginationQuerySchema k (get_prop kvs k)) = Valid))
   \<and> (parseAsync e paginationQuerySchema (JObj kvs) = Resolved out \<longrightarrow>
        (\<exists>okvs. out = JObj okvs
           \<and> (\<forall>k \<in> set [''page'', ''limit'', ''order''].
                 get_prop okvs k
                   = p_value (eval_field e paginationQuerySchema k (get_prop kvs k)))))"
proof (intro conjI impI)
  show "eval_field e paginationQuerySchema ''page'' JUndefined = OK (JNum 1)"
    by (simp add: page_field parseInt_examples page_ok_def)
  show "eval_field e paginationQuerySchema ''limit'' JUndefined = OK (JNum 10)"
    by (simp add: limit_field parseInt_examples limit_ok_def)
  show "eval_field e paginationQuerySchema ''limit'' (JStr ''100'') = OK (JNum 100)"
    by (simp add: limit_field parseInt_examples limit_ok_def)
  show "\<forall>s \<in> {''101'', ''0'', ''abc''}.
         p_status (eval_field e paginationQuerySchema ''limit'' (JStr s)) = Dirty
         \<and> all_issues (eval_field e paginationQuerySchema ''limit'' (JStr s))
             = [\<lparr>code = custom, path = [''limit''],
                 message = ''Limit must be between 1 and 100'', received = JUndefined\<rparr>]"
    by (simp add: limit_field parseInt_examples limit_ok_def all_issues_def)
  show "eval_field e paginationQuerySchema ''order'' JUndefined = OK (JStr ''asc'')"
    by (simp add: order_field)
  show "p_status (eval_field e paginationQuerySchema ''order'' v) = Valid
         \<longleftrightarrow> v = JUndefined \<or> v = JStr ''asc'' \<or> v = JStr ''desc''"
    by (rule order_valid_iff)
  have S: "paginationQuerySchema \<in> set object_schemas" by (simp add: object_schemas_def)
  show "(\<exists>out. parseAsync e paginationQuerySchema (JObj kvs) = Resolved out)
         \<longleftrightarrow> (\<forall>k \<in> set [''page'', ''limit'', ''sortBy'', ''order''].
                p_status (eval_field e paginationQuerySchema k (get_prop kvs k)) = Valid)"
    unfolding registry_resolved_iff[OF S] pagination_keys by (rule refl)
  show "\<exists>okvs. out = JObj okvs
           \<and> (\<forall>k \<in> set [''page'', ''limit'', ''order''].
                 get_prop okvs k
                   = p_value (eval_field e paginationQuerySchema k (get_prop kvs k)))"
    if res: "parseAsync e paginationQuerySchema (JObj kvs) = Resolved out"
  proof -
    from registry_resolved_field[OF S res, of "''page''"]
    obtain okvs where o: "out = JObj okvs" by (auto simp: pagination_keys)
    have "get_prop okvs k = p_value (eval_field e paginationQuerySchema k (get_prop kvs k))"
      if "k \<in> set (shape_keys paginationQuerySchema)" for k
      using registry_resolved_field[OF S res that] o by auto
    then show ?thesis using o by (simp add: pagination_keys)
  qed
qed

lemma limit_100_query_resolved:
  "parseAsync sample_env paginationQuerySchema (JObj [(''limit'', JStr ''100'')])
     = Resolved (JObj [(''page'', JNum 1), (''limit'', JNum 100), (''order'', JStr ''asc'')])"
  by code_simp

theorem pagination_defaults_and_bounds_witness:
  "(\<exists>okvs. JObj [(''page'', JNum 1), (''limit'', JNum 100), (''order'', JStr ''asc'')] = JObj okvs
      \<and> get_prop okvs ''page'' = JNum 1 \<and> get_prop okvs ''limit'' = JNum 100
      \<and> get_prop okvs ''order'' = JStr ''asc'')
   \<and> p_status (eval_field sample_env paginationQuerySchema ''limit'' (JStr ''101'')) = Dirty
   \<and> p_status (eval_field sample_env paginationQuerySchema ''order'' (JStr ''desc'')) = Valid
   \<and> p_status (eval_field sample_env paginationQuerySchema ''order'' (JStr ''up'')) \<noteq> Valid"
proof -
  note inst = pagination_defaults_and_bounds[where e = sample_env
      and kvs = "[(''limit'', JStr ''100'')]"
      and out = "JObj [(''page'', JNum 1), (''limit'', JNum 100), (''order'', JStr ''asc'')]"]
  note c4 = inst[THEN conjunct2, THEN conjunct2, THEN conjunct2, THEN conjunct1]
  note c6 = inst[THEN conjunct2, THEN conjunct2, THEN conjunct2, THEN conjunct2, THEN conjunct2,
      THEN conjunct1]
  note c8 = inst[THEN conjunct2, THEN conjunct2, THEN conjunct2, THEN conjunct2, THEN conjunct2,
      THEN conjunct2, THEN conjunct2, THEN mp, OF limit_100_query_resolved]
  from c8 obtain okvs
    where o: "JObj [(''page'', JNum 1), (''limit'', JNum 100), (''order'', JStr ''asc'')] = JObj okvs"
    by blast
  then have "okvs = [(''page'', JNum 1), (''limit'', JNum 100), (''order'', JStr ''asc'')]"
    by simp
  then have "get_prop okvs ''page'' = JNum 1 \<and> get_prop okvs ''limit'' = JNum 100
      \<and> get_prop okvs ''order'' = JStr ''asc''"
    by (simp add: get_prop_def)
  with o
  have 1: "\<exists>okvs. JObj [(''page'', JNum 1), (''limit'', JNum 100), (''order'', JStr ''asc'')] = JObj okvs
      \<and> get_prop okvs ''page'' = JNum 1 \<and> get_prop okvs ''limit'' = JNum 100
      \<and> get_prop okvs ''order'' = JStr ''asc''"
    by blast
  from c4
  have 2: "p_status (eval_field sample_env paginationQuerySchema ''limit'' (JStr ''101'')) = Dirty"
    by simp
  from c6[of "JStr ''desc''"]
  have 3: "p_status (eval_field sample_env paginationQuerySchema ''order'' (JStr ''desc'')) = Valid"
    by simp
  from c6[of "JStr ''up''"]
  have 4: "p_status (eval_field sample_env paginationQuerySchema ''order'' (JStr ''up'')) \<noteq> Valid"
    by simp
  from 1 2 3 4 show ?thesis by blast
qed

text \<open>
  The claim as stated has \<open>limit = "abc"\<close> fail with a violation of the parse type. The
  query is rejected with the issue of the range refinement, the same as for
  \<open>limit = "101"\<close>; its code is \<open>custom\<close>, not \<open>invalid_type\<close>, and the entry of the
  response is the same for both.
\<close>

theorem limit_abc_counterexample:
  "parseAsync sample_env paginationQuerySchema (JObj [(''limit'', JStr ''abc'')])
     = RejectedZod [\<lparr>code = custom, path = [''limit''],
          message = ''Limit must be between 1 and 100'', received = JUndefined\<rparr>]
   \<and> parseAsync sample_env paginationQuerySchema (JObj [(''limit'', JStr ''101'')])
     = RejectedZod [\<lparr>code = custom, path = [''limit''],
          message = ''Limit must be between 1 and 100'', received = JUndefined\<rparr>]
   \<and> custom \<noteq> invalid_type
   \<and> details_of (validate (zod paginationQuerySchema) Query default_options sample_env
         (empty_request\<lparr>query := JObj [(''limit'', JStr ''abc'')]\<rparr>))
     = details_of (validate (zod paginationQuerySchema) Query default_options sample_env
         (empty_request\<lparr>query := JObj [(''limit'', JStr ''101'')]\<rparr>))"
  by code_simp








subsection \<open>Every violated check is reported\<close>

lemma seen_by_Cons: "seen_by (c # cs) s = (c, s) # seen_by cs (str_check_data c s)"
  by (cases c) simp_all

lemma str_check_issues_entry:
  "str_check_issues e c p s = (if str_violated e c s then [str_entry c p] else [])"
  by (cases c) (auto simp: plain_issue_def)

lemma string_checks_violations:
  "snd (string_checks e cs p s) = string_violations e cs p s"
proof (induction cs arbitrary: s)
  case Nil
  then show ?case by (simp add: string_violations_def)
next
  case (Cons c cs)
  have "snd (string_checks e (c # cs) p s)
          = str_check_issues e c p s @ snd (string_checks e cs p (str_check_data c s))"
    by (simp split: prod.splits)
  also have "\<dots> = str_check_issues e c p s @ string_violations e cs p (str_check_data c s)"
    by (simp only: Cons.IH)
  also have "\<dots> = string_violations e (c # cs) p s"
    by (simp add: string_violations_def seen_by_Cons str_check_issues_entry)
  finally show ?case .
qed

lemma string_issues:
  "issues_now (parse e (ZString tp cs) p (JStr s)) = string_violations e cs p s"
  "issues_later (parse e (ZString tp cs) p (JStr s)) = []"
  using string_checks_violations[of e cs p s] by (auto split: prod.splits)

lemma isInteger_iff: "isInteger r \<longleftrightarrow> r \<in> \<int>"
proof
  assume "isInteger r"
  then have "r = of_int \<lfloor>r\<rfloor>" by (simp add: isInteger_def)
  then show "r \<in> \<int>" by (metis Ints_of_int)
next
  assume "r \<in> \<int>"
  then show "isInteger r" by (simp add: isInteger_def)
qed

lemma num_check_issues_entry:
  "num_check_issues tp c p r = (if num_violated c r then [num_entry tp c p] else [])"
  by (cases c) (auto simp: plain_issue_def isInteger_iff type_message_def split: option.splits)

lemma number_issues:
  "issues_now (parse e (ZNumber tp cs) p (JNum r)) = number_violations tp cs p r"
  "issues_later (parse e (ZNumber tp cs) p (JNum r)) = []"
proof -
  have "number_checks tp cs p r = number_violations tp cs p r"
    unfolding number_checks_def number_violations_def
    by (induction cs) (simp_all add: num_check_issues_entry)
  then show "issues_now (parse e (ZNumber tp cs) p (JNum r)) = number_violations tp cs p r"
    and "issues_later (parse e (ZNumber tp cs) p (JNum r)) = []"
    by (simp_all add: Let_def)
qed

lemma refine_issues:
  assumes "p_status (parse e s p v) \<noteq> Aborted"
  shows "all_issues (parse e (ZRefine s f m) p v)
           = all_issues (parse e s p v)
             @ (if f e (p_value (parse e s p v)) then []
                else [\<lparr>code = custom, path = p, message = m, received = JUndefined\<rparr>])"
  using assms by (simp add: Let_def all_issues_def plain_issue_def)

lemma registry_non_object:
  assumes S: "S \<in> set object_schemas" and v: "\<forall>kvs. v \<noteq> JObj kvs"
  shows "parseAsync e S v =
           RejectedZod [\<lparr>code = invalid_type, path = [],
              message = (if v = JUndefined then ''Required''
                         else ''Expected object, received '' @ ptype_name (getParsedType v)),
              received = JStr (ptype_name (getParsedType v))\<rparr>]"
proof -
  define sh where "sh = shape S"
  from registry_shapes[OF S] have eq: "S = ZObject sh" by (simp add: sh_def)
  show ?thesis unfolding eq using v
    by (cases v)
       (simp_all add: parseAsync_def Let_def INVALID_def all_issues_def type_issue_def
          type_message_def no_params_def)
qed

lemma username_two_violations:
  "all_issues (eval_field e updateUserSchema ''username'' (JStr []))
     = [\<lparr>code = too_small, path = [''username''],
          message = ''Username must be at least 3 characters'', received = JUndefined\<rparr>,
        \<lparr>code = invalid_string, path = [''username''],
          message = ''Username can only contain letters, numbers, and underscores'',
          received = JUndefined\<rparr>]"
  by (simp add: eval_field_def updateUserSchema_def all_issues_def plain_issue_def username_rx_def)

text \<open>
  C1 (as amended). When an object schema of the registry rejects an object, the issues are
  those of all fields, none left out after a first failure: first the issues of the type
  tests and checks of every field, in the order the fields are declared, then the issues
  of the refinements, again in the order of the fields. Every issue of a field carries the
  name of the field as its path. \<open>validate\<close> reports one entry per issue in that order, and
  with \<^verbatim>\<open>abortEarly\<close> exactly one entry, for the first issue of that list. When no
  refinement fails the order is the order of the declaration of the fields. A payload that
  is not an object is rejected with a single type entry whose path is empty.

  Within a field there is one entry per violated check: the issues of a string are the
  entries of all checks that the data violates, each check seeing the data as the
  trimming and lower-casing before it left it; the issues of a number are the entries of
  all checks it violates; and a refinement is evaluated, and its entry added to those of
  the schema beneath it, whenever the type test beneath it has passed. An empty
  \<open>username\<close> in an update has two entries, for the minimum length and for the pattern.

  An update with \<open>height_cm = 10\<close>, \<open>weight_kg = 1000\<close>, a malformed e-mail and every other
  field valid gives exactly three issues, for \<open>email\<close>, \<open>height_cm\<close> and \<open>weight_kg\<close>, in
  this order.
\<close>

theorem details_in_push_order:
  "(S \<in> set object_schemas \<and> get_target req target = JObj kvs
      \<and> parseAsync e S (JObj kvs) = RejectedZod errors \<longrightarrow>
      errors = issues_as_pushed e S kvs
      \<and> (\<forall>k \<in> set (shape_keys S).
            \<forall>i \<in> set (all_issues (eval_field e S k (get_prop kvs k))). path i = [k])
      \<and> details_of (validate (zod S) target options e req)
          = (if abortEarly options = Some True then [detail_entry (hd errors)]
             else map detail_entry errors)
      \<and> ((\<forall>k \<in> set (shape_keys S). issues_later (eval_field e S k (get_prop kvs k)) = [])
           \<longrightarrow> errors = issues_by_field e S kvs))
   \<and> (S \<in> set object_schemas \<and> (\<forall>kvs. v \<noteq> JObj kvs) \<longrightarrow>
        parseAsync e S v =
          RejectedZod [\<lparr>code = invalid_type, path = [],
             message = (if v = JUndefined then ''Required''
                        else ''Expected object, received '' @ ptype_name (getParsedType v)),
             received = JStr (ptype_name (getParsedType v))\<rparr>])
   \<and> issues_now (parse e (ZString tp cs) p (JStr s)) = string_violations e cs p s
   \<and> issues_later (parse e (ZString tp cs) p (JStr s)) = []
   \<and> issues_now (parse e (ZNumber tp ncs) p (JNum r)) = number_violations tp ncs p r
   \<and> issues_later (parse e (ZNumber tp ncs) p (JNum r)) = []
   \<and> (p_status (parse e sch p w) \<noteq> Aborted \<longrightarrow>
        all_issues (parse e (ZRefine sch f msg) p w)
          = all_issues (parse e sch p w)
            @ (if f e (p_value (parse e sch p w)) then []
               else [\<lparr>code = custom, path = p, message = msg, received = JUndefined\<rparr>]))
   \<and> all_issues (eval_field e updateUserSchema ''username'' (JStr []))
       = [\<lparr>code = too_small, path = [''username''],
            message = ''Username must be at least 3 characters'', received = JUndefined\<rparr>,
          \<lparr>code = invalid_string, path = [''username''],
            message = ''Username can only contain letters, numbers, and underscores'',
            received = JUndefined\<rparr>]
   \<and> ((\<forall>k \<in> set (shape_keys updateUserSchema) - {''email'', ''height_cm'', ''weight_kg''}.
           p_status (eval_field e' updateUserSchema k (get_prop kvs' k)) = Valid)
        \<and> get_prop kvs' ''height_cm'' = JNum 10 \<and> get_prop kvs' ''weight_kg'' = JNum 1000
        \<and> get_prop kvs' ''email'' = JStr m \<and> \<not> is_email e' m \<and> length m \<le> 255 \<longrightarrow>
      parseAsync e' updateUserSchema (JObj kvs') =
        RejectedZod
          [\<lparr>code = invalid_string, path = [''email''], message = ''Invalid email format'',
             received = JUndefined\<rparr>,
           \<lparr>code = too_small, path = [''height_cm''],
             message = ''Height must be at least 50 cm'', received = JUndefined\<rparr>,
           \<lparr>code = too_big, path = [''weight_kg''],
             message = ''Weight must be at most 300 kg'', received = JUndefined\<rparr>])"
proof (intro conjI impI)
  assume a: "S \<in> set object_schemas \<and> get_target req target = JObj kvs
      \<and> parseAsync e S (JObj kvs) = RejectedZod errors"
  then have S: "S \<in> set object_schemas" and t: "get_target req target = JObj kvs"
    and rej: "parseAsync e S (JObj kvs) = RejectedZod errors"
    by simp_all
  show pushed: "errors = issues_as_pushed e S kvs"
    by (rule registry_rejected_issues[OF S rej])
  show "\<forall>k \<in> set (shape_keys S).
            \<forall>i \<in> set (all_issues (eval_field e S k (get_prop kvs k))). path i = [k]"
    using registry_field_paths[OF S] by blast
  have ne: "errors \<noteq> []"
    using parseAsync_cases[of e S "JObj kvs"] rej by auto
  have "zod S e (get_target req target) = RejectedZod errors"
    using rej t by (simp add: zod_def)
  from validate_on_rejection[where schema = "zod S" and e = e and options = options, OF this ne]
  show "details_of (validate (zod S) target options e req)
          = (if abortEarly options = Some True then [detail_entry (hd errors)]
             else map detail_entry errors)"
    by (simp add: details_of_validation)
  show "errors = issues_by_field e S kvs"
    if "\<forall>k \<in> set (shape_keys S). issues_later (eval_field e S k (get_prop kvs k)) = []"
    using pushed issues_pushed_by_field[OF that] by simp
next
  assume "S \<in> set object_schemas \<and> (\<forall>kvs. v \<noteq> JObj kvs)"
  then show "parseAsync e S v =
          RejectedZod [\<lparr>code = invalid_type, path = [],
             message = (if v = JUndefined then ''Required''
                        else ''Expected object, received '' @ ptype_name (getParsedType v)),
             received = JStr (ptype_name (getParsedType v))\<rparr>]"
    using registry_non_object by blast
next
  show "issues_now (parse e (ZString tp cs) p (JStr s)) = string_violations e cs p s"
    by (rule string_issues)
  show "issues_later (parse e (ZString tp cs) p (JStr s)) = []"
    by (rule string_issues)
  show "issues_now (parse e (ZNumber tp ncs) p (JNum r)) = number_violations tp ncs p r"
    by (rule number_issues)
  show "issues_later (parse e (ZNumber tp ncs) p (JNum r)) = []"
    by (rule number_issues)
  show "all_issues (parse e (ZRefine sch f msg) p w)
          = all_issues (parse e sch p w)
            @ (if f e (p_value (parse e sch p w)) then []
               else [\<lparr>code = custom, path = p, message = msg, received = JUndefined\<rparr>])"
    if "p_status (parse e sch p w) \<noteq> Aborted"
    using that by (rule refine_issues)
  show "all_issues (eval_field e updateUserSchema ''username'' (JStr []))
       = [\<lparr>code = too_small, path = [''username''],
            message = ''Username must be at least 3 characters'', received = JUndefined\<rparr>,
          \<lparr>code = invalid_string, path = [''username''],
            message = ''Username can only contain letters, numbers, and underscores'',
            received = JUndefined\<rparr>]"
    by (rule username_two_violations)
next
  assume "(\<forall>k \<in> set (shape_keys updateUserSchema) - {''email'', ''height_cm'', ''weight_kg''}.
           p_status (eval_field e' updateUserSchema k (get_prop kvs' k)) = Valid)
        \<and> get_prop kvs' ''height_cm'' = JNum 10 \<and> get_prop kvs' ''weight_kg'' = JNum 1000
        \<and> get_prop kvs' ''email'' = JStr m \<and> \<not> is_email e' m \<and> length m \<le> 255"
  then show "parseAsync e' updateUserSchema (JObj kvs') =
        RejectedZod
          [\<lparr>code = invalid_string, path = [''email''], message = ''Invalid email format'',
             received = JUndefined\<rparr>,
           \<lparr>code = too_small, path = [''height_cm''],
             message = ''Height must be at least 50 cm'', received = JUndefined\<rparr>,
           \<lparr>code = too_big, path = [''weight_kg''],
             message = ''Weight must be at most 300 kg'', received = JUndefined\<rparr>]"
    using update_example[of e' kvs' m] by blast
qed

lemma bad_update_others_valid:
  "\<forall>k \<in> set (shape_keys updateUserSchema) - {''email'', ''height_cm'', ''weight_kg''}.
      p_status (eval_field sample_env updateUserSchema k (get_prop bad_update_fields k)) = Valid"
  unfolding update_keys by code_simp

theorem details_in_push_order_witness:
  "details_of (validate (zod updateUserSchema) Body default_options sample_env
       (empty_request\<lparr>body := bad_update\<rparr>))
     = [JObj [(''field'', JStr ''email''), (''message'', JStr ''Invalid email format'')],
        JObj [(''field'', JStr ''height_cm''), (''message'', JStr ''Height must be at least 50 cm'')],
        JObj [(''field'', JStr ''weight_kg''), (''message'', JStr ''Weight must be at most 300 kg'')]]
   \<and> details_of (validate (zod updateUserSchema) Body abort_early sample_env
       (empty_request\<lparr>body := bad_update\<rparr>))
     = [JObj [(''field'', JStr ''email''), (''message'', JStr ''Invalid email format'')]]
   \<and> issues_as_pushed sample_env updateUserSchema bad_update_fields
     = issues_by_field sample_env updateUserSchema bad_update_fields
   \<and> parseAsync sample_env updateUserSchema JNull
     = RejectedZod [\<lparr>code = invalid_type, path = [],
          message = ''Expected object, received null'', received = JStr ''null''\<rparr>]"
proof -
  have S: "updateUserSchema \<in> set object_schemas" by (simp add: object_schemas_def)
  have t: "get_target (empty_request\<lparr>body := bad_update\<rparr>) Body = JObj bad_update_fields"
    by (simp add: bad_update_def)
  have g: "get_prop bad_update_fields ''height_cm'' = JNum 10"
    "get_prop bad_update_fields ''weight_kg'' = JNum 1000"
    "get_prop bad_update_fields ''email'' = JStr ''not-an-email''"
    "\<not> is_email sample_env ''not-an-email''" "length ''not-an-email'' \<le> 255"
    by (simp_all add: get_prop_def bad_update_fields_def sample_env_def)
  note inst = details_in_push_order[where S = updateUserSchema and req = "empty_request\<lparr>body := bad_update\<rparr>"
      and target = Body and kvs = bad_update_fields and e = sample_env and e' = sample_env
      and kvs' = bad_update_fields and m = "''not-an-email''"]
  from inst bad_update_others_valid g
  have rej: "parseAsync sample_env updateUserSchema (JObj bad_update_fields) =
        RejectedZod
          [\<lparr>code = invalid_string, path = [''email''], message = ''Invalid email format'',
             received = JUndefined\<rparr>,
           \<lparr>code = too_small, path = [''height_cm''],
             message = ''Height must be at least 50 cm'', received = JUndefined\<rparr>,
           \<lparr>code = too_big, path = [''weight_kg''],
             message = ''Weight must be at most 300 kg'', received = JUndefined\<rparr>]"
    by blast
  have later: "\<forall>k \<in> set (shape_keys updateUserSchema).
      issues_later (eval_field sample_env updateUserSchema k (get_prop bad_update_fields k)) = []"
    unfolding update_keys by code_simp
  from inst[where options = default_options] S t rej later
  have 1: "details_of (validate (zod updateUserSchema) Body default_options sample_env
       (empty_request\<lparr>body := bad_update\<rparr>))
     = [JObj [(''field'', JStr ''email''), (''message'', JStr ''Invalid email format'')],
        JObj [(''field'', JStr ''height_cm''), (''message'', JStr ''Height must be at least 50 cm'')],
        JObj [(''field'', JStr ''weight_kg''), (''message'', JStr ''Weight must be at most 300 kg'')]]"
    and 3: "issues_as_pushed sample_env updateUserSchema bad_update_fields
     = issues_by_field sample_env updateUserSchema bad_update_fields"
    by (simp_all add: default_options_def detail_entry_def)
  from inst[where options = abort_early] S t rej
  have 2: "details_of (validate (zod updateUserSchema) Body abort_early sample_env
       (empty_request\<lparr>body := bad_update\<rparr>))
     = [JObj [(''field'', JStr ''email''), (''message'', JStr ''Invalid email format'')]]"
    by (simp add: abort_early_def detail_entry_def)
  from inst[where v = JNull] S
  have 4: "parseAsync sample_env updateUserSchema JNull
     = RejectedZod [\<lparr>code = invalid_type, path = [],
          message = ''Expected object, received null'', received = JStr ''null''\<rparr>]"
    by simp
  from 1 2 3 4 show ?thesis by simp
qed

text \<open>
  The claim as stated lists the entries in the order of the declaration of the fields. In
  \<open>loginSchema\<close> the field \<open>auth_date\<close> is declared before \<open>hash\<close>; for a login with a stale
  time stamp and a hash that is not hexadecimal the entry of \<open>hash\<close> comes first, and with
  \<^verbatim>\<open>abortEarly\<close> it is the only one.
\<close>

theorem declaration_order_counterexample:
  "parseAsync sample_env loginSchema stale_login =
     RejectedZod
       [\<lparr>code = invalid_string, path = [''hash''],
          message = ''Hash must be a valid SHA-256 hex string'', received = JUndefined\<rparr>,
        \<lparr>code = custom, path = [''auth_date''],
          message = ''Authentication date is invalid or expired'', received = JUndefined\<rparr>]
   \<and> issues_by_field sample_env loginSchema stale_login_fields =
       [\<lparr>code = custom, path = [''auth_date''],
          message = ''Authentication date is invalid or expired'', received = JUndefined\<rparr>,
        \<lparr>code = invalid_string, path = [''hash''],
          message = ''Hash must be a valid SHA-256 hex string'', received = JUndefined\<rparr>]
   \<and> map field_of (details_of (validate (zod loginSchema) Body default_options sample_env
         (empty_request\<lparr>body := stale_login\<rparr>))) = [JStr ''hash'', JStr ''auth_date'']
   \<and> map field_of (details_of (validate (zod loginSchema) Body abort_early sample_env
         (empty_request\<lparr>body := stale_login\<rparr>))) = [JStr ''hash'']
   \<and> filter (\<lambda>k. k = ''auth_date'' \<or> k = ''hash'') (shape_keys loginSchema)
       = [''auth_date'', ''hash'']"
  by code_simp

subsection \<open>Trimming and the first name\<close>

lemma trim_spaces: "list_all is_space s \<Longrightarrow> trim s = []"
proof -
  assume "list_all is_space s"
  then have d: "dropWhile is_space s = []" by (induction s) auto
  show ?thesis unfolding trim_def d by simp
qed

lemma length_trim: "length (trim s) \<le> length s"
proof -
  have "length (dropWhile is_space (rev (dropWhile is_space s))) \<le> length (rev (dropWhile is_space s))"
    by (rule length_dropWhile_le)
  also have "\<dots> \<le> length s" by (simp add: length_dropWhile_le)
  finally show ?thesis by (simp add: trim_def)
qed

lemma create_keys:
  "shape_keys createUserSchema =
     [''id'', ''first_name'', ''username'', ''last_name'', ''photo_url'', ''role'', ''language'']"
  by (simp add: createUserSchema_def)

lemma create_first_name:
  "eval_field e createUserSchema ''first_name'' (JStr s) =
     (if 1 \<le> length s \<and> length s \<le> 100 then OK (JStr (trim s))
      else \<lparr>p_status = Dirty, p_value = JStr (trim s),
             issues_now = (if length s < 1
                           then [plain_issue too_small [''first_name'']
                                   ''First name must be at least 1 character'']
                           else [])
                          @ (if 100 < length s
                             then [plain_issue too_big [''first_name'']
                                     ''First name must be at most 100 characters'']
                             else []),
             issues_later = []\<rparr>)"
  by (cases s) (auto simp: eval_field_def createUserSchema_def OK_def)

lemma create_first_name_valid:
  "p_status (eval_field e createUserSchema ''first_name'' v) = Valid
     \<longleftrightarrow> (\<exists>s. v = JStr s \<and> 1 \<le> length s \<and> length s \<le> 100)"
proof (cases v)
  case (JStr s)
  then show ?thesis by (auto simp: create_first_name OK_def)
qed (simp_all add: eval_field_def createUserSchema_def INVALID_def)

text \<open>
  What the code does for the first name of a new user: the length is tested on the name as
  received, and the name is trimmed afterwards. An accepted input has a first name of 1 to
  100 characters, and the output carries it trimmed.
\<close>

lemma create_first_name_accepted:
  assumes "parseAsync e createUserSchema (JObj kvs) = Resolved out"
  shows "\<exists>s okvs. get_prop kvs ''first_name'' = JStr s \<and> 1 \<le> length s \<and> length s \<le> 100
           \<and> out = JObj okvs \<and> get_prop okvs ''first_name'' = JStr (trim s)"
proof -
  have S: "createUserSchema \<in> set object_schemas" by (simp add: object_schemas_def)
  from assms have "\<exists>out. parseAsync e createUserSchema (JObj kvs) = Resolved out" by blast
  then have "p_status (eval_field e createUserSchema ''first_name'' (get_prop kvs ''first_name'')) = Valid"
    unfolding registry_resolved_iff[OF S] create_keys by simp
  then obtain s where s: "get_prop kvs ''first_name'' = JStr s" "1 \<le> length s" "length s \<le> 100"
    unfolding create_first_name_valid by blast
  from registry_resolved_field[OF S assms, of "''first_name''"]
  obtain okvs where "out = JObj okvs"
    and "get_prop okvs ''first_name''
           = p_value (eval_field e createUserSchema ''first_name'' (get_prop kvs ''first_name''))"
    by (auto simp: create_keys)
  with s show ?thesis by (auto simp: create_first_name OK_def)
qed

text \<open>
  C7. The claim has a first name of white space only not accepted, the normalized first
  name being non-empty. A new user whose first name is a single space is accepted, and the
  normalized first name is the empty string: the minimum length is tested before the name
  is trimmed.
\<close>

theorem whitespace_first_name_accepted:
  "parseAsync sample_env createUserSchema (JObj [(''id'', JNum 7), (''first_name'', JStr '' '')])
     = Resolved (JObj [(''id'', JNum 7), (''first_name'', JStr [])])
   \<and> trim '' '' = []"
  by code_simp

subsection \<open>Normalization of strings is idempotent\<close>

lemma dropWhile_self: "xs = [] \<or> \<not> P (hd xs) \<Longrightarrow> dropWhile P xs = xs"
  by (cases xs) auto

lemma trim_unchanged:
  assumes "s = [] \<or> (\<not> is_space (hd s) \<and> \<not> is_space (last s))"
  shows "trim s = s"
proof (cases "s = []")
  case True
  then show ?thesis by (simp add: trim_def)
next
  case False
  with assms have h: "\<not> is_space (hd s)" and l: "\<not> is_space (last s)" by simp_all
  have 1: "dropWhile is_space s = s" using h by (simp add: dropWhile_self)
  have "hd (rev s) = last s" using False by (simp add: hd_rev)
  then have 2: "dropWhile is_space (rev s) = rev s" using l by (simp add: dropWhile_self)
  show ?thesis unfolding trim_def 1 2 by simp
qed

lemma trim_ends:
  "trim s = [] \<or> (\<not> is_space (hd (trim s)) \<and> \<not> is_space (last (trim s)))"
proof (cases "trim s = []")
  case True then show ?thesis by simp
next
  case False
  define t where "t = dropWhile is_space s"
  define u where "u = dropWhile is_space (rev t)"
  have tr: "trim s = rev u" by (simp add: trim_def t_def u_def)
  with False have une: "u \<noteq> []" by simp
  then have hu: "\<not> is_space (hd u)" unfolding u_def by (rule hd_dropWhile)
  have "rev t = takeWhile is_space (rev t) @ u" by (simp add: u_def)
  then have "t = rev u @ rev (takeWhile is_space (rev t))"
    by (metis rev_append rev_rev_ident)
  then have "hd t = hd (rev u)" using une by (metis hd_append2 rev_is_Nil_conv)
  moreover have "t \<noteq> []" using une by (auto simp: u_def)
  then have "\<not> is_space (hd t)" unfolding t_def by (rule hd_dropWhile)
  ultimately have "\<not> is_space (hd (trim s))" by (simp add: tr)
  moreover have "last (trim s) = hd u" using une by (simp add: tr last_rev)
  ultimately show ?thesis using hu by simp
qed

lemma trim_idem: "trim (trim s) = trim s"
  by (rule trim_unchanged) (rule trim_ends)

lemma lower_char_idem: "lower_char (lower_char c) = lower_char c"
proof -
  have lt: "(of_char c :: nat) < 256" by simp
  show ?thesis
    using lt by (auto simp: lower_char_def Let_def)
qed

lemma lower_char_space: "is_space (lower_char c) \<longleftrightarrow> is_space c"
  by (auto simp: lower_char_def Let_def is_space_def)

lemma toLowerCase_idem: "toLowerCase (toLowerCase s) = toLowerCase s"
  by (simp add: toLowerCase_def lower_char_idem)

lemma trim_toLowerCase: "trim (toLowerCase s) = toLowerCase (trim s)"
proof -
  have d: "dropWhile is_space (map lower_char xs) = map lower_char (dropWhile is_space xs)" for xs
    by (induction xs) (auto simp: lower_char_space)
  have "trim (map lower_char s) = rev (dropWhile is_space (map lower_char (rev (dropWhile is_space s))))"
    by (simp add: trim_def d rev_map)
  also have "\<dots> = map lower_char (trim s)"
    by (simp add: trim_def d rev_map)
  finally show ?thesis by (simp add: toLowerCase_def)
qed

lemma fst_string_checks:
  "fst (string_checks e cs p s) = foldl (\<lambda>d c. str_check_data c d) s cs"
proof (induction cs arbitrary: s)
  case Nil
  then show ?case by simp
next
  case (Cons c cs)
  have "fst (string_checks e (c # cs) p s) = fst (string_checks e cs p (str_check_data c s))"
    by (simp split: prod.splits)
  then show ?case by (simp add: Cons.IH)
qed

lemma normal_form:
  "foldl (\<lambda>d c. str_check_data c d) s cs
     = (if STrim \<in> set cs then trim else id)
         ((if SToLowerCase \<in> set cs then toLowerCase else id) s)"
proof (induction cs arbitrary: s)
  case Nil
  then show ?case by simp
next
  case (Cons c cs)
  show ?case
    by (cases c) (auto simp: Cons.IH trim_idem toLowerCase_idem trim_toLowerCase)
qed

lemma normalize_idem:
  "foldl (\<lambda>d c. str_check_data c d) (foldl (\<lambda>d c. str_check_data c d) s cs) cs
     = foldl (\<lambda>d c. str_check_data c d) s cs"
  by (simp add: normal_form trim_idem toLowerCase_idem trim_toLowerCase)

end
